theory Spec2Isabelle
  imports Complex_Main "HOL-Library.Word"
begin

unbundle bit_operations_syntax

section \<open>Exit codes, configuration and session objects\<close>

text \<open>
  The enumerators of \<^verbatim>\<open>BrainFlowExitCodes\<close> that the two drivers name.  The enum's header
  is not part of the sources at hand; \<open>OTHER_EXIT_CODE\<close> stands for every enumerator
  the drivers do not name themselves (\<^verbatim>\<open>prepare_buffers\<close> of the base class may return one).
\<close>

datatype BrainFlowExitCodes =
    STATUS_OK
  | PORT_ALREADY_OPEN_ERROR
  | UNABLE_TO_OPEN_PORT_ERROR
  | SET_PORT_ERROR
  | STREAM_ALREADY_RUN_ERROR
  | STREAM_THREAD_IS_NOT_RUNNING
  | INVALID_ARGUMENTS_ERROR
  | UNSUPPORTED_BOARD_ERROR
  | GENERAL_ERROR
  | OTHER_EXIT_CODE int

text \<open>
  The result names of the specification (its section 6), and the exit code each one
  stands for.  The pairing is fixed by the places where the specification describes a
  return of the code: missing configuration (\<open>InvalidArgument\<close>), a port that is already
  open (\<open>ResourceBusy\<close>), a failed open (\<open>ResourceUnavailable\<close>), a failed settings call
  (\<open>ConfigurationError\<close>), a second start (\<open>AlreadyRunning\<close>), a stop without a stream
  (\<open>NotRunning\<close>), \<^verbatim>\<open>config_board\<close> (\<open>UnsupportedOperation\<close>).
\<close>

datatype result_name =
    Ok | InvalidArgument | ResourceBusy | ResourceUnavailable | ConfigurationError
  | AlreadyRunning | NotRunning | UnsupportedOperation | GeneralError | Unnamed

fun result_name_of :: "BrainFlowExitCodes \<Rightarrow> result_name" where
  "result_name_of STATUS_OK = Ok"
| "result_name_of INVALID_ARGUMENTS_ERROR = InvalidArgument"
| "result_name_of PORT_ALREADY_OPEN_ERROR = ResourceBusy"
| "result_name_of UNABLE_TO_OPEN_PORT_ERROR = ResourceUnavailable"
| "result_name_of SET_PORT_ERROR = ConfigurationError"
| "result_name_of STREAM_ALREADY_RUN_ERROR = AlreadyRunning"
| "result_name_of STREAM_THREAD_IS_NOT_RUNNING = NotRunning"
| "result_name_of UNSUPPORTED_BOARD_ERROR = UnsupportedOperation"
| "result_name_of GENERAL_ERROR = GeneralError"
| "result_name_of (OTHER_EXIT_CODE n) = Unnamed"

text \<open>The return value of \<^verbatim>\<open>MultiCastClient::init\<close>.\<close>

datatype MultiCastReturnCodes = MultiCast_STATUS_OK | MultiCast_ERROR int

text \<open>The fields of \<^verbatim>\<open>BrainFlowInputParams\<close> that the two drivers read.\<close>

record BrainFlowInputParams =
  serial_port :: string
  ip_address :: string
  ip_port :: int
  other_info :: string

text \<open>The objects a session owns through a pointer; \<open>None\<close> is the null pointer.\<close>

datatype Serial = Serial string
datatype MultiCastClient = MultiCastClient string int

text \<open>
  Calls that leave the session object: on the serial port, the socket, the heap and the
  worker thread.  Every operation appends the calls it makes to the session's \<open>effects\<close>,
  in program order, so that a statement can count how often a resource was acquired.
\<close>

datatype effect =
    New_Serial string
  | Delete_Serial
  | Open_Serial_Port
  | Set_Serial_Port_Settings int bool
  | Set_Custom_Baudrate int
  | Flush_Buffer
  | Close_Serial_Port
  | New_MultiCastClient string int
  | Client_Init
  | Delete_MultiCastClient
  | Prepare_Buffers int
  | Thread_Start
  | Thread_Join
  | Delete_Streamer

text \<open>
  The members both drivers have: \<open>board_id\<close>, \<open>params\<close> and \<open>streamer\<close> come from the base
  class \<^verbatim>\<open>Board\<close> (\<open>streamer\<close> holds whether the pointer is non-null); \<open>keep_alive\<close>,
  \<open>initialized\<close>, \<open>is_streaming\<close> and \<open>streaming_thread\<close> are members of each driver class
  (\<open>streaming_thread\<close> holds whether the \<^verbatim>\<open>std::thread\<close> is joinable).
\<close>

record Board =
  board_id :: int
  params :: BrainFlowInputParams
  streamer :: bool
  keep_alive :: bool
  initialized :: bool
  is_streaming :: bool
  streaming_thread :: bool
  effects :: "effect list"

record FreeEEG32 = Board +
  serial :: "Serial option"

record StreamingBoard = Board +
  client :: "MultiCastClient option"

text \<open>
  What the calls into the operating system and into the base class answer during one
  operation.  \<open>win32\<close> tells which branch of the source's \<^verbatim>\<open>#ifdef _WIN32\<close> was compiled.
  \<open>prepare_buffers\<close> is the base class's buffer set-up: its exit code, and whether
  \<open>streamer\<close> is non-null afterwards.
\<close>

record host =
  win32 :: bool
  is_port_open :: bool
  open_serial_port :: int
  set_serial_port_settings :: int
  set_custom_baudrate :: int
  client_init :: MultiCastReturnCodes
  prepare_buffers :: "BrainFlowExitCodes \<times> bool"

text \<open>
  An operation either returns an exit code and leaves the session in a new state, or it
  does not return one: a null pointer is dereferenced, or \<^verbatim>\<open>std::thread\<close> throws or calls
  \<^verbatim>\<open>std::terminate\<close>.
\<close>

datatype 's outcome = Returns BrainFlowExitCodes 's | Aborts

fun exit_code :: "'s outcome \<Rightarrow> BrainFlowExitCodes option" where
  "exit_code (Returns c s) = Some c"
| "exit_code Aborts = None"

fun state_after :: "'s outcome \<Rightarrow> 's option" where
  "state_after (Returns c s) = Some s"
| "state_after Aborts = None"

text \<open>
  One call after another inside an operation: the exit code of the first is dropped, as
  the source drops the value of \<^verbatim>\<open>stop_stream ()\<close> inside \<^verbatim>\<open>release_session\<close>.
\<close>

definition and_then :: "'s outcome \<Rightarrow> ('s \<Rightarrow> 's outcome) \<Rightarrow> 's outcome" where
  "and_then r f = (case r of Aborts \<Rightarrow> Aborts | Returns c s \<Rightarrow> f s)"

definition calls :: "effect \<Rightarrow> 'a Board_scheme \<Rightarrow> 'a Board_scheme" where
  "calls e s = s\<lparr>effects := effects s @ [e]\<rparr>"

section \<open>std::stoi\<close>

text \<open>
  \<^verbatim>\<open>std::stoi (str)\<close> in base 10: leading white space is skipped, one sign is read, then
  the longest run of decimal digits; what follows the digits is ignored.  It throws
  \<^verbatim>\<open>std::invalid_argument\<close> when there is no digit and \<^verbatim>\<open>std::out_of_range\<close> when the
  number does not fit a 32-bit \<^verbatim>\<open>int\<close>; both are \<open>None\<close> here.
\<close>

definition isspace :: "char \<Rightarrow> bool" where
  "isspace c = (of_char c \<in> {32::nat, 9, 10, 11, 12, 13})"

definition isdigit :: "char \<Rightarrow> bool" where
  "isdigit c = (48 \<le> (of_char c :: nat) \<and> (of_char c :: nat) \<le> 57)"

definition digits_value :: "string \<Rightarrow> int" where
  "digits_value ds = foldl (\<lambda>acc c. 10 * acc + (of_char c - 48)) 0 ds"

definition stoi :: "string \<Rightarrow> int option" where
  "stoi str =
     (let s1 = dropWhile isspace str;
          negative = (s1 \<noteq> [] \<and> hd s1 = CHR ''-'');
          s2 = (if s1 \<noteq> [] \<and> (hd s1 = CHR ''-'' \<or> hd s1 = CHR ''+'') then tl s1 else s1);
          ds = takeWhile isdigit s2;
          v = (if negative then - digits_value ds else digits_value ds)
      in if ds = [] then None
         else if v < - (2 ^ 31) \<or> 2 ^ 31 - 1 < v then None
         else Some v)"

section \<open>The serial driver: FreeEEG32\<close>

definition FreeEEG32_new :: "int \<Rightarrow> BrainFlowInputParams \<Rightarrow> FreeEEG32" where
  "FreeEEG32_new FREEEEG32_BOARD ps =
     \<lparr>board_id = FREEEEG32_BOARD, params = ps, streamer = False, keep_alive = False,
      initialized = False, is_streaming = False, streaming_thread = False, effects = [],
      serial = None\<rparr>"

definition open_port :: "host \<Rightarrow> FreeEEG32 \<Rightarrow> BrainFlowExitCodes \<times> FreeEEG32" where
  "open_port h s =
     (if is_port_open h then (PORT_ALREADY_OPEN_ERROR, s)
      else let s1 = calls Open_Serial_Port s in
        if open_serial_port h < 0 then (UNABLE_TO_OPEN_PORT_ERROR, s1)
        else (STATUS_OK, s1))"

definition set_port_settings :: "host \<Rightarrow> FreeEEG32 \<Rightarrow> BrainFlowExitCodes \<times> FreeEEG32" where
  "set_port_settings h s =
     (let timeout_only = win32 h;
          s1 = calls (Set_Serial_Port_Settings 1000 timeout_only) s in
      if set_serial_port_settings h < 0 then (SET_PORT_ERROR, s1)
      else if win32 h then (STATUS_OK, s1)
      else let s2 = calls (Set_Custom_Baudrate 921600) s1 in
        if set_custom_baudrate h < 0 then (SET_PORT_ERROR, s2)
        else (STATUS_OK, s2))"

definition FreeEEG32_prepare_session :: "host \<Rightarrow> FreeEEG32 \<Rightarrow> FreeEEG32 outcome" where
  "FreeEEG32_prepare_session h s =
     (if initialized s then Returns STATUS_OK s
      else if serial_port (params s) = [] then Returns INVALID_ARGUMENTS_ERROR s
      else
        let s1 = (calls (New_Serial (serial_port (params s))) s)
                   \<lparr>serial := Some (Serial (serial_port (params s)))\<rparr>;
            (port_open, s2) = open_port h s1 in
        if port_open \<noteq> STATUS_OK
        then Returns port_open ((calls Delete_Serial s2)\<lparr>serial := None\<rparr>)
        else
          let (set_settings, s3) = set_port_settings h s2 in
          if set_settings \<noteq> STATUS_OK
          then Returns set_settings ((calls Delete_Serial s3)\<lparr>serial := None\<rparr>)
          else Returns STATUS_OK (s3\<lparr>initialized := True\<rparr>))"

text \<open>
  \<^verbatim>\<open>start_stream\<close>: \<^verbatim>\<open>serial->flush_buffer ()\<close> dereferences \<open>serial\<close> without a check, and
  assigning a new thread to a joinable \<^verbatim>\<open>std::thread\<close> terminates the process.
\<close>

definition FreeEEG32_start_stream :: "host \<Rightarrow> int \<Rightarrow> FreeEEG32 \<Rightarrow> FreeEEG32 outcome" where
  "FreeEEG32_start_stream h buffer_size s =
     (if is_streaming s then Returns STREAM_ALREADY_RUN_ERROR s
      else
        let s1 = (calls (Prepare_Buffers buffer_size) s)\<lparr>streamer := snd (prepare_buffers h)\<rparr> in
        if fst (prepare_buffers h) \<noteq> STATUS_OK then Returns (fst (prepare_buffers h)) s1
        else if serial s1 = None then Aborts
        else
          let s2 = (calls Flush_Buffer s1)\<lparr>keep_alive := True\<rparr> in
          if streaming_thread s2 then Aborts
          else Returns STATUS_OK
                 ((calls Thread_Start s2)\<lparr>streaming_thread := True, is_streaming := True\<rparr>))"

definition FreeEEG32_stop_stream :: "FreeEEG32 \<Rightarrow> FreeEEG32 outcome" where
  "FreeEEG32_stop_stream s =
     (if is_streaming s then
        let s1 = s\<lparr>keep_alive := False, is_streaming := False\<rparr>;
            s2 = (if streaming_thread s1
                  then (calls Thread_Join s1)\<lparr>streaming_thread := False\<rparr> else s1);
            s3 = (if streamer s2 then (calls Delete_Streamer s2)\<lparr>streamer := False\<rparr> else s2)
        in Returns STATUS_OK s3
      else Returns STREAM_THREAD_IS_NOT_RUNNING s)"

definition FreeEEG32_release_session :: "FreeEEG32 \<Rightarrow> FreeEEG32 outcome" where
  "FreeEEG32_release_session s =
     and_then
       (if initialized s
        then and_then (if is_streaming s then FreeEEG32_stop_stream s else Returns STATUS_OK s)
               (\<lambda>s1. Returns STATUS_OK (s1\<lparr>initialized := False\<rparr>))
        else Returns STATUS_OK s)
       (\<lambda>s2. if serial s2 \<noteq> None
             then Returns STATUS_OK
                    ((calls Delete_Serial (calls Close_Serial_Port s2))\<lparr>serial := None\<rparr>)
             else Returns STATUS_OK s2)"

section \<open>The network relay driver: StreamingBoard\<close>

definition StreamingBoard_new :: "int \<Rightarrow> BrainFlowInputParams \<Rightarrow> StreamingBoard" where
  "StreamingBoard_new STREAMING_BOARD ps =
     \<lparr>board_id = STREAMING_BOARD, params = ps, streamer = False, keep_alive = False,
      initialized = False, is_streaming = False, streaming_thread = False, effects = [],
      client = None\<rparr>"

text \<open>
  \<^verbatim>\<open>prepare_session\<close>: the assignment \<^verbatim>\<open>board_id = std::stoi (params.other_info)\<close> happens
  only when \<^verbatim>\<open>std::stoi\<close> returns; its exceptions are caught and answered with
  \<^verbatim>\<open>INVALID_ARGUMENTS_ERROR\<close>.
\<close>

definition StreamingBoard_prepare_session :: "host \<Rightarrow> StreamingBoard \<Rightarrow> StreamingBoard outcome" where
  "StreamingBoard_prepare_session h s =
     (if initialized s then Returns STATUS_OK s
      else if ip_address (params s) = [] \<or> other_info (params s) = [] \<or> ip_port (params s) = 0
      then Returns INVALID_ARGUMENTS_ERROR s
      else
        case stoi (other_info (params s)) of
          None \<Rightarrow> Returns INVALID_ARGUMENTS_ERROR s
        | Some n \<Rightarrow>
            let s1 = s\<lparr>board_id := n\<rparr>;
                s2 = (calls (New_MultiCastClient (ip_address (params s1)) (ip_port (params s1))) s1)
                       \<lparr>client := Some (MultiCastClient (ip_address (params s1)) (ip_port (params s1)))\<rparr>;
                s3 = calls Client_Init s2 in
            if client_init h \<noteq> MultiCast_STATUS_OK then Returns GENERAL_ERROR s3
            else Returns STATUS_OK (s3\<lparr>initialized := True\<rparr>))"

definition StreamingBoard_start_stream :: "host \<Rightarrow> int \<Rightarrow> StreamingBoard \<Rightarrow> StreamingBoard outcome" where
  "StreamingBoard_start_stream h buffer_size s =
     (if is_streaming s then Returns STREAM_ALREADY_RUN_ERROR s
      else
        let s1 = (calls (Prepare_Buffers buffer_size) s)\<lparr>streamer := snd (prepare_buffers h)\<rparr> in
        if fst (prepare_buffers h) \<noteq> STATUS_OK then Returns (fst (prepare_buffers h)) s1
        else
          let s2 = s1\<lparr>keep_alive := True\<rparr> in
          if streaming_thread s2 then Aborts
          else Returns STATUS_OK
                 ((calls Thread_Start s2)\<lparr>streaming_thread := True, is_streaming := True\<rparr>))"

text \<open>\<^verbatim>\<open>stop_stream\<close> joins without asking \<^verbatim>\<open>joinable ()\<close>: \<^verbatim>\<open>join\<close> throws on a thread that is not.\<close>

definition StreamingBoard_stop_stream :: "StreamingBoard \<Rightarrow> StreamingBoard outcome" where
  "StreamingBoard_stop_stream s =
     (if is_streaming s then
        let s1 = s\<lparr>keep_alive := False, is_streaming := False\<rparr> in
        if \<not> streaming_thread s1 then Aborts
        else
          let s2 = (calls Thread_Join s1)\<lparr>streaming_thread := False\<rparr>;
              s3 = (if streamer s2 then (calls Delete_Streamer s2)\<lparr>streamer := False\<rparr> else s2)
          in Returns STATUS_OK s3
      else Returns STREAM_THREAD_IS_NOT_RUNNING s)"

definition StreamingBoard_release_session :: "StreamingBoard \<Rightarrow> StreamingBoard outcome" where
  "StreamingBoard_release_session s =
     (if initialized s then
        and_then (if is_streaming s then StreamingBoard_stop_stream s else Returns STATUS_OK s)
          (\<lambda>s1. let s2 = s1\<lparr>initialized := False\<rparr> in
                if client s2 \<noteq> None
                then Returns STATUS_OK ((calls Delete_MultiCastClient s2)\<lparr>client := None\<rparr>)
                else Returns STATUS_OK s2)
      else Returns STATUS_OK s)"

section \<open>IEEE 754 arithmetic of the decoder\<close>

text \<open>
  A \<^verbatim>\<open>float\<close> or \<^verbatim>\<open>double\<close> is modelled by the real number it denotes, and every
  operation by the exact result rounded into the format (round to nearest, ties to even,
  the default mode).  \<open>floor_log2 x\<close> is the binary exponent of a positive \<open>x\<close>.
\<close>

function floor_log2_up :: "real \<Rightarrow> int" where
  "floor_log2_up x = (if x < 2 then 0 else 1 + floor_log2_up (x / 2))"
  by pat_completeness auto
termination
proof (relation "measure (\<lambda>x. nat \<lfloor>x\<rfloor>)")
  show "wf (measure (\<lambda>x::real. nat \<lfloor>x\<rfloor>))" by simp
next
  fix x :: real
  assume "\<not> x < 2"
  then have "\<lfloor>x / 2\<rfloor> < \<lfloor>x\<rfloor>" and "0 < \<lfloor>x\<rfloor>" by linarith+
  then show "(x / 2, x) \<in> measure (\<lambda>x. nat \<lfloor>x\<rfloor>)" by simp
qed

function floor_log2_down :: "real \<Rightarrow> int" where
  "floor_log2_down x = (if x \<le> 0 \<or> 1 \<le> x then 0 else floor_log2_down (2 * x) - 1)"
  by pat_completeness auto
termination
proof (relation "measure (\<lambda>x. nat \<lfloor>1 / x\<rfloor>)")
  show "wf (measure (\<lambda>x::real. nat \<lfloor>1 / x\<rfloor>))" by simp
next
  fix x :: real
  assume a: "\<not> (x \<le> 0 \<or> 1 \<le> x)"
  define y where "y = 1 / x"
  from a have "1 < y" by (simp add: y_def)
  then have pos: "0 < \<lfloor>y\<rfloor>" by linarith
  have "real_of_int (2 * \<lfloor>y / 2\<rfloor>) \<le> y" by linarith
  also have "y < real_of_int (\<lfloor>y\<rfloor> + 1)" by linarith
  finally have "2 * \<lfloor>y / 2\<rfloor> < \<lfloor>y\<rfloor> + 1" by (simp only: of_int_less_iff)
  with pos have lt: "\<lfloor>y / 2\<rfloor> < \<lfloor>y\<rfloor>" by linarith
  have half: "1 / (2 * x) = y / 2" by (simp add: y_def)
  have "nat \<lfloor>1 / (2 * x)\<rfloor> < nat \<lfloor>y\<rfloor>" unfolding half using lt pos by linarith
  then show "(2 * x, x) \<in> measure (\<lambda>x. nat \<lfloor>1 / x\<rfloor>)" by (simp only: in_measure y_def)
qed

declare floor_log2_up.simps [simp del] floor_log2_down.simps [simp del]

definition floor_log2 :: "real \<Rightarrow> int" where
  "floor_log2 x = (if 1 \<le> x then floor_log2_up x else floor_log2_down x)"

definition round_half_even :: "real \<Rightarrow> int" where
  "round_half_even y =
     (let f = \<lfloor>y\<rfloor> in
      if y - of_int f < 1 / 2 then f
      else if 1 / 2 < y - of_int f then f + 1
      else if even f then f else f + 1)"

text \<open>
  Rounding into the binary format with \<open>p\<close> significant bits and least normal exponent
  \<open>emin\<close>; below \<open>2 powi emin\<close> the spacing of the subnormal numbers applies.  A magnitude
  beyond the format's largest number is an infinity in the machine and is not
  represented here: the decoder's values stay below \<open>2 ^ 18\<close>.
\<close>

definition round_to_format :: "nat \<Rightarrow> int \<Rightarrow> real \<Rightarrow> real" where
  "round_to_format p emin x =
     (if x = 0 then 0
      else let e = max (floor_log2 \<bar>x\<bar>) emin;
               ulp = 2 powi (e - (int p - 1))
           in sgn x * of_int (round_half_even (\<bar>x\<bar> / ulp)) * ulp)"

definition binary32 :: "real \<Rightarrow> real" where
  "binary32 = round_to_format 24 (- 126)"

definition binary64 :: "real \<Rightarrow> real" where
  "binary64 = round_to_format 53 (- 1022)"

section \<open>The serial worker: FreeEEG32::read_thread\<close>

type_synonym u8 = "8 word"

text \<open>
  The constants of the class declaration (\<^verbatim>\<open>freeeeg32.h\<close>, which is not among the sources
  at hand) are parameters of the worker.
\<close>

record FreeEEG32_constants =
  start_byte :: int
  end_byte :: int
  ads_gain :: real
  ads_vref :: real

definition max_size :: int where
  "max_size = 200"

definition min_package_size :: int where
  "min_package_size = 1 + 32 * 3"

text \<open>
  \<^verbatim>\<open>float eeg_scale = ads_vref / float ((pow (2, 23) - 1)) / ads_gain * 1000000.;\<close>
  is computed in \<^verbatim>\<open>double\<close> and then stored in a \<^verbatim>\<open>float\<close>.
\<close>

definition eeg_scale :: "FreeEEG32_constants \<Rightarrow> real" where
  "eeg_scale k =
     binary32 (binary64 (binary64 (binary64
       (ads_vref k / binary32 (binary64 (binary64 (2 ^ 23) - 1))) / ads_gain k) * 1000000))"

text \<open>
  Modelled from the spec: \<^verbatim>\<open>cast_24bit_to_int32\<close> of \<^verbatim>\<open>custom_cast.h\<close>, which is not among
  the sources at hand.  The specification reads a channel as a 3-byte big-endian
  two's-complement integer.
\<close>

definition cast_24bit_to_int32 :: "u8 \<Rightarrow> u8 \<Rightarrow> u8 \<Rightarrow> int" where
  "cast_24bit_to_int32 b0 b1 b2 =
     (let u = 65536 * uint b0 + 256 * uint b1 + uint b2
      in if 2 ^ 23 \<le> u then u - 2 ^ 24 else u)"

text \<open>
  \<^verbatim>\<open>eeg_scale * cast_24bit_to_int32 (b + 1 + 3 * i)\<close>: the integer is converted to
  \<^verbatim>\<open>float\<close> and the product is a \<^verbatim>\<open>float\<close>; storing it in the \<^verbatim>\<open>double\<close> array is exact.
\<close>

definition channel_value :: "real \<Rightarrow> u8 \<Rightarrow> u8 \<Rightarrow> u8 \<Rightarrow> real" where
  "channel_value scale b0 b1 b2 =
     binary32 (scale * binary32 (of_int (cast_24bit_to_int32 b0 b1 b2)))"

text \<open>
  One call \<^verbatim>\<open>read_from_serial_port (b + pos, 1)\<close>: \<open>Byte_Read x\<close> stores the byte \<open>x\<close> at
  \<open>b[pos]\<close> and returns 1; \<open>No_Byte r\<close> stores nothing and returns \<open>r\<close> (0 after the
  timeout, a negative number where the operating system reports an error).
\<close>

datatype serial_read = Byte_Read u8 | No_Byte int

fun read_res :: "serial_read \<Rightarrow> int" where
  "read_res (Byte_Read x) = 1"
| "read_res (No_Byte r) = r"

fun store_read :: "u8 list \<Rightarrow> int \<Rightarrow> serial_read \<Rightarrow> u8 list" where
  "store_read b pos (Byte_Read x) = b[nat pos := x]"
| "store_read b pos (No_Byte r) = b"

text \<open>
  The inner loop.  The list holds the reads that the worker gets to make: \<open>keep_alive\<close> is
  set before the thread starts and cleared once by \<^verbatim>\<open>stop_stream\<close>, so the worker sees it
  true up to some read and false from the next test on; the empty list is that moment.
  \<open>Scanned complete_package b pos rest\<close> is the state when the loop is left.  A negative
  \<open>pos\<close> (after a negative return value) addresses memory in front of \<open>b\<close>; what the
  program does from there on is not defined.
\<close>

datatype scan_result = Scanned bool "u8 list" int "serial_read list" | Scan_Out_Of_Bounds

fun scan :: "FreeEEG32_constants \<Rightarrow> u8 list \<Rightarrow> int \<Rightarrow> serial_read list \<Rightarrow> scan_result" where
  "scan k b pos [] = Scanned False b pos []"
| "scan k b pos (r # rs) =
     (if \<not> pos < max_size - 2 then Scanned False b pos (r # rs)
      else if pos < 0 then Scan_Out_Of_Bounds
      else
        let b1 = store_read b pos r;
            prev_id = (if pos \<le> 0 then 0 else pos - 1) in
        if uint (b1 ! nat pos) = start_byte k \<and> uint (b1 ! nat prev_id) = end_byte k
           \<and> min_package_size \<le> pos
        then Scanned True b1 pos rs
        else scan k b1 (pos + read_res r) rs)"

text \<open>
  The sample array \<^verbatim>\<open>package\<close>: \<^verbatim>\<open>new double[package_size]\<close> leaves its elements
  indeterminate (\<open>None\<close>) until they are written.
\<close>

type_synonym package = "real option list"

definition decode_package :: "real \<Rightarrow> real \<Rightarrow> u8 list \<Rightarrow> package \<Rightarrow> package" where
  "decode_package scale timestamp b package =
     (foldl (\<lambda>p i. p[i + 1 := Some (channel_value scale (b ! (1 + 3 * i)) (b ! (2 + 3 * i)) (b ! (3 + 3 * i)))])
        (package[0 := Some (real (unat (b ! 0)))]) [0..<32])
     [33 := Some timestamp]"

text \<open>
  What one pass of the outer loop did: it found no frame in the scan window (the source
  logs the position), it dropped the first frame, or it pushed a sample.
\<close>

datatype iteration = No_Frame int | First_Package_Dropped | Pushed package

text \<open>
  How a worker ends: it returns when it sees \<open>keep_alive\<close> cleared, or it faults: it
  accesses memory outside an array (from where on the program has no defined behaviour)
  or throws an exception that nothing catches.
\<close>

datatype thread_end = Thread_Returns | Thread_Faults

definition logged :: "iteration \<Rightarrow> iteration list \<times> thread_end \<Rightarrow> iteration list \<times> thread_end" where
  "logged i r = (i # fst r, snd r)"

text \<open>
  The outer loop.  \<open>get_timestamp n\<close> is what the clock returns at the \<open>n\<close>-th sample.
  Writing \<^verbatim>\<open>package[33]\<close> in an array of fewer than 34 elements is out of bounds.
\<close>

function read_loop ::
  "FreeEEG32_constants \<Rightarrow> (nat \<Rightarrow> real) \<Rightarrow> u8 list \<Rightarrow> bool \<Rightarrow> package \<Rightarrow> nat \<Rightarrow> serial_read list
     \<Rightarrow> iteration list \<times> thread_end" where
  "read_loop k get_timestamp b first_package_received package n rs =
     (if rs = [] then ([], Thread_Returns)
      else
        case scan k b 0 rs of
          Scan_Out_Of_Bounds \<Rightarrow> ([], Thread_Faults)
        | Scanned complete_package b1 pos rs1 \<Rightarrow>
            if complete_package then
              if \<not> first_package_received
              then logged First_Package_Dropped (read_loop k get_timestamp b1 True package n rs1)
              else if length package < 34 then ([], Thread_Faults)
              else
                let package1 = decode_package (eeg_scale k) (get_timestamp n) b1 package
                in logged (Pushed package1) (read_loop k get_timestamp b1 True package1 (Suc n) rs1)
            else logged (No_Frame pos) (read_loop k get_timestamp b1 first_package_received package n rs1))"
  by pat_completeness auto
termination
proof -
  have shorter: "length rs1 \<le> length rs \<and> (rs \<noteq> [] \<and> 0 \<le> pos \<and> pos < max_size - 2 \<longrightarrow> length rs1 < length rs)"
    if "scan k b pos rs = Scanned c b1 p rs1" for k b pos rs c b1 p rs1
    using that
  proof (induction rs arbitrary: b pos)
    case Nil
    then show ?case by simp
  next
    case (Cons r rs)
    show ?case
    proof (cases "\<not> pos < max_size - 2 \<or> pos < 0")
      case True
      with Cons.prems show ?thesis by (auto split: if_splits)
    next
      case False
      show ?thesis
      proof (cases "scan k b pos (r # rs) = scan k (store_read b pos r) (pos + read_res r) rs")
        case True
        with Cons.prems Cons.IH [of "store_read b pos r" "pos + read_res r"] show ?thesis
          by fastforce
      next
        case no: False
        with False Cons.prems have "rs1 = rs" by (auto simp: Let_def split: if_splits)
        then show ?thesis by simp
      qed
    qed
  qed
  show ?thesis
  proof (relation "measure (\<lambda>(k, t, b, f, p, n, rs). length rs)")
    show "wf (measure (\<lambda>(k :: FreeEEG32_constants, t :: nat \<Rightarrow> real, b :: u8 list, f :: bool, p :: package, n :: nat, rs :: serial_read list). length rs))"
      by simp
  qed (use shorter in \<open>fastforce simp: max_size_def\<close>)+
qed

declare read_loop.simps [simp del]

text \<open>
  The scan windows of a byte stream, from the inner loop alone: the outer loop starts one
  scan after the other at \<open>pos = 0\<close>, each where the one before stopped reading; the list
  says of each window whether it ended on a complete frame, and holds the buffer \<open>b\<close> as
  the scan left it.
\<close>

function windows ::
  "FreeEEG32_constants \<Rightarrow> u8 list \<Rightarrow> serial_read list \<Rightarrow> (bool \<times> u8 list) list" where
  "windows k b rs =
     (if rs = [] then []
      else
        case scan k b 0 rs of
          Scan_Out_Of_Bounds \<Rightarrow> []
        | Scanned complete_package b1 pos rs1 \<Rightarrow> (complete_package, b1) # windows k b1 rs1)"
  by pat_completeness auto
termination
proof -
  have shorter: "length rs1 \<le> length rs \<and> (rs \<noteq> [] \<and> 0 \<le> pos \<and> pos < max_size - 2 \<longrightarrow> length rs1 < length rs)"
    if "scan k b pos rs = Scanned c b1 p rs1" for k b pos rs c b1 p rs1
    using that
  proof (induction rs arbitrary: b pos)
    case Nil
    then show ?case by simp
  next
    case (Cons r rs)
    show ?case
    proof (cases "\<not> pos < max_size - 2 \<or> pos < 0")
      case True
      with Cons.prems show ?thesis by (auto split: if_splits)
    next
      case False
      show ?thesis
      proof (cases "scan k b pos (r # rs) = scan k (store_read b pos r) (pos + read_res r) rs")
        case True
        with Cons.prems Cons.IH [of "store_read b pos r" "pos + read_res r"] show ?thesis
          by fastforce
      next
        case no: False
        with False Cons.prems have "rs1 = rs" by (auto simp: Let_def split: if_splits)
        then show ?thesis by simp
      qed
    qed
  qed
  show ?thesis
  proof (relation "measure (\<lambda>(k, b, rs). length rs)")
    show "wf (measure (\<lambda>(k :: FreeEEG32_constants, b :: u8 list, rs :: serial_read list). length rs))"
      by simp
  qed (use shorter in \<open>fastforce simp: max_size_def\<close>)
qed

declare windows.simps [simp del]

text \<open>
  \<^verbatim>\<open>get_num_rows (board_id, &package_size)\<close> asks the board registry, which is not among
  the sources at hand: \<open>get_num_rows\<close> is a parameter, \<open>None\<close> where the registry fails and
  leaves \<open>package_size\<close> at 0.  A negative size makes \<^verbatim>\<open>new double[package_size]\<close> throw.
\<close>

definition FreeEEG32_read_thread ::
  "FreeEEG32_constants \<Rightarrow> (int \<Rightarrow> int option) \<Rightarrow> (nat \<Rightarrow> real) \<Rightarrow> int \<Rightarrow> serial_read list
     \<Rightarrow> iteration list \<times> thread_end" where
  "FreeEEG32_read_thread k get_num_rows get_timestamp board rs =
     (let package_size = (case get_num_rows board of Some rows \<Rightarrow> rows | None \<Rightarrow> 0) in
      if package_size < 0 then ([], Thread_Faults)
      else read_loop k get_timestamp (replicate (nat max_size) 0) False
             (replicate (nat package_size) None) 0 rs)"

definition pushed :: "iteration list \<Rightarrow> package list" where
  "pushed its = concat (map (\<lambda>i. case i of Pushed p \<Rightarrow> [p] | _ \<Rightarrow> []) its)"

section \<open>The relay worker: StreamingBoard::read_thread\<close>

text \<open>
  One call \<^verbatim>\<open>client->recv (package, bytes_per_recv)\<close>: its return value, and the values
  of the whole \<^verbatim>\<open>double\<close>s it stored at the start of \<^verbatim>\<open>package\<close>.  It never writes past the
  end of the array it was given.
\<close>

datatype recv_result = Recv int "real list"

fun recv_res :: "recv_result \<Rightarrow> int" where
  "recv_res (Recv res vals) = res"

fun store_recv :: "package \<Rightarrow> recv_result \<Rightarrow> package" where
  "store_recv package (Recv res vals) =
     map Some (take (length package) vals) @ drop (length vals) package"

text \<open>
  \<^verbatim>\<open>int bytes_per_recv = sizeof (double) * num_channels;\<close> the product is truncated to the
  32 bits of an \<^verbatim>\<open>int\<close>.
\<close>

definition bytes_per_recv :: "int \<Rightarrow> int" where
  "bytes_per_recv num_channels = sint (word_of_int (8 * num_channels) :: 32 word)"

text \<open>
  The loop, over the receives the worker gets to make while it sees \<open>keep_alive\<close> true.
  Each pass has one entry in the result: the sample it pushed, or \<open>None\<close> after the
  \<^verbatim>\<open>continue\<close>.
\<close>

fun relay_loop :: "int \<Rightarrow> package \<Rightarrow> recv_result list \<Rightarrow> package option list" where
  "relay_loop bpr package [] = []"
| "relay_loop bpr package (r # rs) =
     (let package1 = store_recv package r in
      if recv_res r \<noteq> bpr then None # relay_loop bpr package1 rs
      else Some package1 # relay_loop bpr package1 rs)"

definition StreamingBoard_read_thread ::
  "(int \<Rightarrow> int option) \<Rightarrow> int \<Rightarrow> recv_result list \<Rightarrow> package option list \<times> thread_end" where
  "StreamingBoard_read_thread get_num_rows board rs =
     (let num_channels = (case get_num_rows board of Some rows \<Rightarrow> rows | None \<Rightarrow> 0) in
      if num_channels < 0 then ([], Thread_Faults)
      else (relay_loop (bytes_per_recv num_channels) (replicate (nat num_channels) None) rs,
            Thread_Returns))"

section \<open>Vocabulary of the statements\<close>

text \<open>
  Modelled from the spec: the sample vector length of the board registry
  (\<^verbatim>\<open>get_num_rows\<close> of \<^verbatim>\<open>board_info_getter.h\<close>, which is not among the sources at hand).
  The specification's ChannelLayout has the sample vector length
  "channel count + fixed auxiliary fields (a leading marker/sequence value and a trailing
  timestamp)".
\<close>

definition ChannelLayout_length :: "nat \<Rightarrow> nat" where
  "ChannelLayout_length channel_count = channel_count + 2"

text \<open>The row count that \<^verbatim>\<open>get_num_rows\<close> leaves in the worker's variable.\<close>

definition rows_of :: "(int \<Rightarrow> int option) \<Rightarrow> int \<Rightarrow> int" where
  "rows_of get_num_rows board = (case get_num_rows board of Some rows \<Rightarrow> rows | None \<Rightarrow> 0)"

text \<open>The passes of the serial worker's outer loop that found a complete frame.\<close>

fun found_frame :: "iteration \<Rightarrow> bool" where
  "found_frame (No_Frame pos) = False"
| "found_frame First_Package_Dropped = True"
| "found_frame (Pushed p) = True"

definition frames :: "iteration list \<Rightarrow> iteration list" where
  "frames its = filter found_frame its"

text \<open>
  The buffers of the windows that ended on a complete frame, in the order of the stream,
  for a worker that starts with its zeroed buffer.
\<close>

definition complete_windows :: "FreeEEG32_constants \<Rightarrow> serial_read list \<Rightarrow> u8 list list" where
  "complete_windows k rs = map snd (filter fst (windows k (replicate (nat max_size) 0) rs))"

text \<open>
  What decoding a list of frame buffers gives: the buffer at position \<open>j\<close> decoded with the
  \<open>(n + j)\<close>-th time stamp into an array of \<open>rows\<close> elements.
\<close>

fun decoded ::
  "FreeEEG32_constants \<Rightarrow> (nat \<Rightarrow> real) \<Rightarrow> nat \<Rightarrow> nat \<Rightarrow> u8 list list \<Rightarrow> package list" where
  "decoded k get_timestamp rows n [] = []"
| "decoded k get_timestamp rows n (b # bs) =
     decode_package (eeg_scale k) (get_timestamp n) b (replicate rows None)
     # decoded k get_timestamp rows (Suc n) bs"

text \<open>How often a session asked the operating system for its transport.\<close>

definition opens_of_transport :: "effect list \<Rightarrow> nat" where
  "opens_of_transport es = count_list es Open_Serial_Port + count_list es Client_Init"

text \<open>The integer that the decoder reads for channel \<open>i\<close> (counted from 0) of the frame in \<open>b\<close>.\<close>

definition raw_channel :: "u8 list \<Rightarrow> nat \<Rightarrow> int" where
  "raw_channel b i = cast_24bit_to_int32 (b ! (1 + 3 * i)) (b ! (2 + 3 * i)) (b ! (3 + 3 * i))"

text \<open>
  The scale of the specification, \<open>Vref / (2\<^sup>2\<^sup>3 - 1) / Gain \<times> 10\<^sup>6\<close>, in exact arithmetic.
\<close>

definition exact_scale :: "real \<Rightarrow> real \<Rightarrow> real" where
  "exact_scale vref gain = vref / (2 ^ 23 - 1) / gain * 1000000"

section \<open>Example sessions, hosts and byte streams\<close>

definition relay_params :: "string \<Rightarrow> BrainFlowInputParams" where
  "relay_params delegate =
     \<lparr>serial_port = [], ip_address = ''225.1.1.1'', ip_port = 6677, other_info = delegate\<rparr>"

definition serial_params :: BrainFlowInputParams where
  "serial_params =
     \<lparr>serial_port = ''/dev/ttyACM0'', ip_address = [], ip_port = 0, other_info = []\<rparr>"

text \<open>A host on which every call succeeds, and one on which the socket cannot be set up.\<close>

definition posix_host :: host where
  "posix_host =
     \<lparr>win32 = False, is_port_open = False, open_serial_port = 0, set_serial_port_settings = 0,
      set_custom_baudrate = 0, client_init = MultiCast_STATUS_OK,
      prepare_buffers = (STATUS_OK, True)\<rparr>"

definition no_socket_host :: host where
  "no_socket_host = posix_host\<lparr>client_init := MultiCast_ERROR 1\<rparr>"

text \<open>The serial session before \<^verbatim>\<open>prepare_session\<close>, after it, and after \<^verbatim>\<open>start_stream\<close>.\<close>

definition new_serial :: FreeEEG32 where
  "new_serial = FreeEEG32_new 17 serial_params"

definition prepared_serial :: FreeEEG32 where
  "prepared_serial =
     new_serial\<lparr>initialized := True, serial := Some (Serial ''/dev/ttyACM0''),
       effects := [New_Serial ''/dev/ttyACM0'', Open_Serial_Port,
                   Set_Serial_Port_Settings 1000 False, Set_Custom_Baudrate 921600]\<rparr>"

definition streaming_serial :: FreeEEG32 where
  "streaming_serial =
     prepared_serial\<lparr>streamer := True, keep_alive := True, is_streaming := True,
       streaming_thread := True,
       effects := effects prepared_serial @ [Prepare_Buffers 45000, Flush_Buffer, Thread_Start]\<rparr>"

text \<open>
  The relay session before \<^verbatim>\<open>prepare_session\<close>, after a successful one, after
  \<^verbatim>\<open>start_stream\<close>; after a \<^verbatim>\<open>prepare_session\<close> whose socket set-up failed, and after a
  \<^verbatim>\<open>start_stream\<close> on that session.
\<close>

definition new_relay :: StreamingBoard where
  "new_relay = StreamingBoard_new (- 2) (relay_params ''17'')"

definition prepared_relay :: StreamingBoard where
  "prepared_relay =
     new_relay\<lparr>board_id := 17, initialized := True,
       client := Some (MultiCastClient ''225.1.1.1'' 6677),
       effects := [New_MultiCastClient ''225.1.1.1'' 6677, Client_Init]\<rparr>"

definition streaming_relay :: StreamingBoard where
  "streaming_relay =
     prepared_relay\<lparr>streamer := True, keep_alive := True, is_streaming := True,
       streaming_thread := True,
       effects := effects prepared_relay @ [Prepare_Buffers 45000, Thread_Start]\<rparr>"

definition failed_relay :: StreamingBoard where
  "failed_relay =
     new_relay\<lparr>board_id := 17, client := Some (MultiCastClient ''225.1.1.1'' 6677),
       effects := [New_MultiCastClient ''225.1.1.1'' 6677, Client_Init]\<rparr>"

definition started_failed_relay :: StreamingBoard where
  "started_failed_relay =
     failed_relay\<lparr>streamer := True, keep_alive := True, is_streaming := True,
       streaming_thread := True,
       effects := effects failed_relay @ [Prepare_Buffers 45000, Thread_Start]\<rparr>"

text \<open>
  Constants of a device, a registry with a 34-row serial board (17) and a 3-row board (1),
  a clock, and pieces of a byte stream: a frame is the marker byte, 96 channel bytes and
  the two sentinels.
\<close>

definition wire :: FreeEEG32_constants where
  "wire = \<lparr>start_byte = 0xA0, end_byte = 0xC0, ads_gain = 24, ads_vref = 4.5\<rparr>"

definition registry :: "int \<Rightarrow> int option" where
  "registry board =
     (if board = 17 then Some (int (ChannelLayout_length 32))
      else if board = 1 then Some 3 else None)"

definition clock :: "nat \<Rightarrow> real" where
  "clock n = 1000 + real n"

definition frame :: "u8 \<Rightarrow> u8 list \<Rightarrow> serial_read list" where
  "frame marker channels = map Byte_Read (marker # channels @ [0xC0, 0xA0])"

definition silence :: "u8 list" where
  "silence = replicate 96 0"

definition full_scale_first :: "u8 list" where
  "full_scale_first = [0x7F, 0xFF, 0xFF] @ replicate 93 0"

definition noise :: "serial_read list" where
  "noise = replicate 198 (Byte_Read 0)"

definition buffer_of :: "u8 \<Rightarrow> u8 list \<Rightarrow> u8 list" where
  "buffer_of marker channels = marker # channels @ [0xC0, 0xA0] @ replicate 101 0"

definition packets :: "recv_result list" where
  "packets = [Recv 8 [5], Recv 24 [1, 2, 3], Recv (- 1) [], Recv 24 [4, 5, 6]]"

section \<open>Evaluation of the examples\<close>

lemmas examples = relay_params_def serial_params_def posix_host_def no_socket_host_def
  StreamingBoard_new_def FreeEEG32_new_def new_serial_def prepared_serial_def
  streaming_serial_def new_relay_def prepared_relay_def streaming_relay_def failed_relay_def
  started_failed_relay_def

lemma stoi_abc: "stoi ''abc'' = None"
  by (simp add: stoi_def isspace_def isdigit_def)

lemma stoi_17: "stoi ''17'' = Some 17"
  by (simp add: stoi_def isspace_def isdigit_def digits_value_def)

lemma serial_prepares:
  "FreeEEG32_prepare_session posix_host new_serial = Returns STATUS_OK prepared_serial"
  by (simp add: FreeEEG32_prepare_session_def open_port_def set_port_settings_def calls_def examples)

lemma serial_starts:
  "FreeEEG32_start_stream posix_host 45000 prepared_serial = Returns STATUS_OK streaming_serial"
  by (simp add: FreeEEG32_start_stream_def calls_def examples)

lemma relay_prepares:
  "StreamingBoard_prepare_session posix_host new_relay = Returns STATUS_OK prepared_relay"
  by (simp add: StreamingBoard_prepare_session_def calls_def examples stoi_17)

lemma relay_starts:
  "StreamingBoard_start_stream posix_host 45000 prepared_relay = Returns STATUS_OK streaming_relay"
  by (simp add: StreamingBoard_start_stream_def calls_def examples)

lemma frame_not_empty [simp]: "frame marker channels \<noteq> []" "frame marker channels @ rs \<noteq> []"
  by (simp_all add: frame_def)

lemma noise_not_empty [simp]: "noise @ rs \<noteq> []"
  by (simp add: noise_def)

lemma scan_first:
  "scan wire (replicate 200 0) 0 (frame 1 silence @ noise @ frame 2 full_scale_first)
   = Scanned True (buffer_of 1 silence) 98 (noise @ frame 2 full_scale_first)"
  by code_simp

lemma scan_noise:
  "scan wire (buffer_of 1 silence) 0 (noise @ frame 2 full_scale_first)
   = Scanned False (replicate 200 0) 198 (frame 2 full_scale_first)"
  by code_simp

lemma scan_second:
  "scan wire (replicate 200 0) 0 (frame 2 full_scale_first)
   = Scanned True (buffer_of 2 full_scale_first) 98 []"
  by code_simp

text \<open>
  A run of the serial worker: a frame, then 198 bytes without the sentinel pair (the scan
  window is exhausted), then a second frame.
\<close>

lemma resync_run:
  "FreeEEG32_read_thread wire registry clock 17 (frame 1 silence @ noise @ frame 2 full_scale_first)
   = ([First_Package_Dropped, No_Frame 198,
       Pushed (decode_package (eeg_scale wire) (clock 0) (buffer_of 2 full_scale_first)
                 (replicate 34 None))],
      Thread_Returns)"
  by (simp add: FreeEEG32_read_thread_def registry_def ChannelLayout_length_def max_size_def
      read_loop.simps scan_first scan_noise scan_second logged_def)

lemma relay_run:
  "StreamingBoard_read_thread registry 1 packets
   = ([None, Some [Some 1, Some 2, Some 3], None, Some [Some 4, Some 5, Some 6]], Thread_Returns)"
  by (simp add: StreamingBoard_read_thread_def registry_def packets_def bytes_per_recv_def Let_def)

section \<open>Properties of the rounding\<close>

lemma floor_log2_up_bounds: "1 \<le> x \<Longrightarrow> 2 powi floor_log2_up x \<le> x \<and> x < 2 powi (floor_log2_up x + 1)"
proof (induction x rule: floor_log2_up.induct)
  case (1 x)
  show ?case
  proof (cases "x < 2")
    case True
    then have "floor_log2_up x = 0" by (simp add: floor_log2_up.simps [of x])
    with "1.prems" True show ?thesis by simp
  next
    case False
    then have "1 \<le> x / 2" by simp
    with "1.IH" False have ih: "2 powi floor_log2_up (x / 2) \<le> x / 2 \<and> x / 2 < 2 powi (floor_log2_up (x / 2) + 1)" by simp
    have eq: "floor_log2_up x = 1 + floor_log2_up (x / 2)" using False by (simp add: floor_log2_up.simps [of x])
    show ?thesis using ih unfolding eq by (simp add: power_int_add field_simps)
  qed
qed

lemma floor_log2_down_bounds: "0 < x \<Longrightarrow> x < 1 \<Longrightarrow> 2 powi floor_log2_down x \<le> x \<and> x < 2 powi (floor_log2_down x + 1)"
proof (induction x rule: floor_log2_down.induct)
  case (1 x)
  have eq: "floor_log2_down x = floor_log2_down (2 * x) - 1" using "1.prems" by (simp add: floor_log2_down.simps [of x])
  show ?case
  proof (cases "2 * x < 1")
    case True
    with "1.IH" "1.prems" have ih: "2 powi floor_log2_down (2 * x) \<le> 2 * x \<and> 2 * x < 2 powi (floor_log2_down (2 * x) + 1)" by simp
    show ?thesis using ih unfolding eq by (simp add: power_int_add power_int_diff field_simps)
  next
    case False
    then have "floor_log2_down (2 * x) = 0" by (simp add: floor_log2_down.simps [of "2 * x"])
    then show ?thesis using False "1.prems" unfolding eq by (simp add: power_int_minus)
  qed
qed

lemma floor_log2_bounds: "0 < x \<Longrightarrow> 2 powi floor_log2 x \<le> x \<and> x < 2 powi (floor_log2 x + 1)"
  using floor_log2_up_bounds [of x] floor_log2_down_bounds [of x]
  by (cases "1 \<le> x") (simp_all add: floor_log2_def)

lemma round_half_even_near: "\<bar>of_int (round_half_even y) - y\<bar> \<le> 1 / 2"
  unfolding round_half_even_def Let_def by (auto; linarith)


lemma round_to_format_error:
  assumes "x \<noteq> 0" and "2 powi emin \<le> \<bar>x\<bar>" and "0 < p"
  shows "\<bar>round_to_format p emin x - x\<bar> \<le> \<bar>x\<bar> / 2 ^ p"
proof -
  define e where "e = floor_log2 \<bar>x\<bar>"
  have ax: "0 < \<bar>x\<bar>" using assms(1) by simp
  have b: "2 powi e \<le> \<bar>x\<bar>" "\<bar>x\<bar> < 2 powi (e + 1)"
    using floor_log2_bounds [OF ax] by (simp_all add: e_def)
  have "(2::real) powi emin < 2 powi (e + 1)" using assms(2) b(2) by linarith
  then have "emin < e + 1"
    using power_int_increasing [of "e + 1" emin "2::real"] by (cases "emin < e + 1") simp_all
  then have me: "max e emin = e" by simp
  define u :: real where "u = 2 powi (e - (int p - 1))"
  have u0: "0 < u" by (simp add: u_def)
  have r: "round_to_format p emin x = sgn x * of_int (round_half_even (\<bar>x\<bar> / u)) * u"
    using assms(1) by (simp add: round_to_format_def Let_def me e_def [symmetric] u_def)
  define m :: real where "m = of_int (round_half_even (\<bar>x\<bar> / u))"
  have "\<bar>m - \<bar>x\<bar> / u\<bar> \<le> 1 / 2"
    unfolding m_def by (rule round_half_even_near)
  then have "\<bar>m - \<bar>x\<bar> / u\<bar> * u \<le> 1 / 2 * u"
    using u0 by (intro mult_right_mono) simp_all
  moreover have "(m - \<bar>x\<bar> / u) * u = m * u - \<bar>x\<bar>"
    using u0 by (simp add: field_simps)
  then have "\<bar>m - \<bar>x\<bar> / u\<bar> * u = \<bar>m * u - \<bar>x\<bar>\<bar>"
    using u0 abs_mult [of "m - \<bar>x\<bar> / u" u] by simp
  ultimately have d: "\<bar>m * u - \<bar>x\<bar>\<bar> \<le> u / 2" by simp
  have "x = sgn x * \<bar>x\<bar>" by (simp add: sgn_mult_abs)
  then have "round_to_format p emin x - x = sgn x * (m * u - \<bar>x\<bar>)"
    unfolding r m_def [symmetric] by (simp add: algebra_simps)
  then have "\<bar>round_to_format p emin x - x\<bar> = \<bar>m * u - \<bar>x\<bar>\<bar>"
    using assms(1) by (simp add: abs_mult abs_sgn_eq)
  with d have "\<bar>round_to_format p emin x - x\<bar> \<le> u / 2" by simp
  also have "u / 2 = 2 powi e / 2 ^ p"
    using assms(3) by (simp add: u_def power_int_diff power_int_add field_simps flip: power_Suc) 
  also have "\<dots> \<le> \<bar>x\<bar> / 2 ^ p" using b(1) by (simp add: divide_right_mono)
  finally show ?thesis .
qed

lemmas rounding = binary32_def binary64_def round_to_format_def floor_log2_def
  round_half_even_def Let_def power_int_minus floor_log2_up.simps floor_log2_down.simps

lemma eeg_scale_value:
  assumes "ads_vref k = 4.5" and "ads_gain k = 24"
  shows "eeg_scale k = 12000001 / 536870912"
  unfolding eeg_scale_def assms by (simp add: rounding)

lemma binary32_error:
  assumes "1 / 2 ^ 126 \<le> \<bar>x\<bar>"
  shows "\<bar>binary32 x - x\<bar> \<le> \<bar>x\<bar> / 2 ^ 24"
proof -
  have "(0::real) < 1 / 2 ^ 126" by simp
  with assms have "x \<noteq> 0" by linarith
  moreover have "(2::real) powi (- 126) \<le> \<bar>x\<bar>" using assms by (simp add: power_int_minus field_simps)
  ultimately show ?thesis
    unfolding binary32_def by (intro round_to_format_error) simp_all
qed

lemma channel_value_error:
  fixes v :: int
  defines "S \<equiv> (4.5 / (2 ^ 23 - 1) / 24 * 1000000 :: real)"
  defines "e \<equiv> (12000001 / 536870912 :: real)"
  shows "\<bar>binary32 (e * binary32 (of_int v)) - of_int v * S\<bar> \<le> \<bar>of_int v * S\<bar> / 2 ^ 22"
proof (cases "v = 0")
  case True
  then show ?thesis by (simp add: binary32_def round_to_format_def)
next
  case False
  define a :: real where "a = \<bar>of_int v\<bar>"
  define w where "w = binary32 (of_int v)"
  define c where "c = binary32 (e * w)"
  from False have a1: "1 \<le> a" by (simp add: a_def)
  have "1 / 2 ^ 126 \<le> (1::real)" by simp
  with a1 have "1 / 2 ^ 126 \<le> \<bar>real_of_int v\<bar>" unfolding a_def by linarith
  then have w_err: "\<bar>w - of_int v\<bar> \<le> a / 2 ^ 24"
    unfolding w_def a_def by (rule binary32_error)
  then have w_lo: "a - a / 2 ^ 24 \<le> \<bar>w\<bar>" and w_hi: "\<bar>w\<bar> \<le> a + a / 2 ^ 24"
    unfolding a_def by linarith+
  have e_pos: "0 < e" by (simp add: e_def)
  have "1 / 2 \<le> \<bar>w\<bar>" using w_lo a1 by simp
  then have "e * (1 / 2) \<le> e * \<bar>w\<bar>" using e_pos by (intro mult_left_mono) simp_all
  moreover have "1 / 2 ^ 126 \<le> e * (1 / 2)" by (simp add: e_def)
  moreover have ew: "\<bar>e * w\<bar> = e * \<bar>w\<bar>" using e_pos by (simp add: abs_mult)
  ultimately have "1 / 2 ^ 126 \<le> \<bar>e * w\<bar>" by linarith
  then have "\<bar>c - e * w\<bar> \<le> \<bar>e * w\<bar> / 2 ^ 24"
    unfolding c_def by (rule binary32_error)
  also note ew
  also have "e * \<bar>w\<bar> / 2 ^ 24 \<le> e * (a + a / 2 ^ 24) / 2 ^ 24"
    using w_hi e_pos by (intro divide_right_mono mult_left_mono) simp_all
  finally have c_err: "\<bar>c - e * w\<bar> \<le> e * (a + a / 2 ^ 24) / 2 ^ 24" .
  have "\<bar>e * w - e * of_int v\<bar> = e * \<bar>w - of_int v\<bar>"
    using e_pos by (simp add: abs_mult flip: right_diff_distrib)
  also have "\<dots> \<le> e * (a / 2 ^ 24)" using w_err e_pos by (intro mult_left_mono) simp_all
  finally have w_part: "\<bar>e * w - e * of_int v\<bar> \<le> e * (a / 2 ^ 24)" .
  have s_part: "\<bar>e * of_int v - of_int v * S\<bar> = \<bar>e - S\<bar> * a"
    by (simp add: a_def abs_mult flip: left_diff_distrib mult.commute [of S])
  have "\<bar>c - of_int v * S\<bar> \<le> \<bar>c - e * w\<bar> + \<bar>e * w - e * of_int v\<bar> + \<bar>e * of_int v - of_int v * S\<bar>"
    by linarith
  also have "\<dots> \<le> e * (a + a / 2 ^ 24) / 2 ^ 24 + e * (a / 2 ^ 24) + \<bar>e - S\<bar> * a"
    using c_err w_part s_part by linarith
  also have "\<dots> = (e * (1 + 1 / 2 ^ 24) / 2 ^ 24 + e / 2 ^ 24 + \<bar>e - S\<bar>) * a"
    by (simp add: algebra_simps)
  also have "\<dots> \<le> (S / 2 ^ 22) * a"
  proof (intro mult_right_mono)
    show "e * (1 + 1 / 2 ^ 24) / 2 ^ 24 + e / 2 ^ 24 + \<bar>e - S\<bar> \<le> S / 2 ^ 22"
      by (simp add: e_def S_def)
    show "0 \<le> a" using a1 by simp
  qed
  also have "(S / 2 ^ 22) * a = \<bar>of_int v * S\<bar> / 2 ^ 22"
    by (simp add: a_def abs_mult S_def)
  finally show ?thesis by (simp add: c_def w_def)
qed


lemma wire_scale: "eeg_scale wire = 12000001 / 536870912"
  by (rule eeg_scale_value) (simp_all add: wire_def)

lemma max_positive: "cast_24bit_to_int32 0x7F 0xFF 0xFF = 0x7FFFFF"
  by (simp add: cast_24bit_to_int32_def)

lemma max_positive_value: "channel_value (12000001 / 536870912) 0x7F 0xFF 0xFF = 187500"
  unfolding channel_value_def max_positive by (simp add: rounding)

section \<open>Properties of the workers' loops\<close>

lemma length_channels:
  "length (foldl (\<lambda>p i. p[g i := f i]) p0 is) = length p0"
  by (induction "is" arbitrary: p0) simp_all

lemma length_decode_package [simp]:
  "length (decode_package scale t b package) = length package"
  by (simp add: decode_package_def length_channels)

lemma nth_channels:
  "distinct is \<Longrightarrow> \<forall>i \<in> set is. Suc i < length p0 \<Longrightarrow>
   foldl (\<lambda>p i. p[Suc i := f i]) p0 is ! j
     = (if j \<noteq> 0 \<and> j - 1 \<in> set is then f (j - 1) else p0 ! j)"
proof (induction "is" arbitrary: p0)
  case Nil
  then show ?case by simp
next
  case (Cons a "is")
  have "foldl (\<lambda>p i. p[Suc i := f i]) (p0[Suc a := f a]) is ! j
      = (if j \<noteq> 0 \<and> j - 1 \<in> set is then f (j - 1) else (p0[Suc a := f a]) ! j)"
    using Cons.prems by (intro Cons.IH) simp_all
  then show ?case using Cons.prems by (auto simp: nth_list_update)
qed

lemma decode_package_nth:
  assumes "34 \<le> length package"
  shows "decode_package scale t b package ! j =
     (if j = 0 then Some (real (unat (b ! 0)))
      else if j \<le> 32 then Some (channel_value scale (b ! (1 + 3 * (j - 1))) (b ! (2 + 3 * (j - 1))) (b ! (3 + 3 * (j - 1))))
      else if j = 33 then Some t
      else package ! j)"
proof -
  define f where "f = (\<lambda>i. Some (channel_value scale (b ! (1 + 3 * i)) (b ! (2 + 3 * i)) (b ! (3 + 3 * i))))"
  define p0 where "p0 = package[0 := Some (real (unat (b ! 0)))]"
  from assms have ne: "package \<noteq> []" by auto
  have d: "decode_package scale t b package = (foldl (\<lambda>p i. p[Suc i := f i]) p0 [0..<32])[33 := Some t]"
    by (simp add: decode_package_def f_def p0_def)
  have n: "foldl (\<lambda>p i. p[Suc i := f i]) p0 [0..<32] ! j
      = (if j \<noteq> 0 \<and> j - 1 \<in> set [0..<32] then f (j - 1) else p0 ! j)"
    using assms by (intro nth_channels) (simp_all add: p0_def)
  have l: "length (foldl (\<lambda>p i. p[Suc i := f i]) p0 [0..<32]) = length package"
    by (simp add: length_channels p0_def)
  show ?thesis
  proof (cases "j = 33")
    case True
    then show ?thesis unfolding d using assms l by simp
  next
    case False
    then have "decode_package scale t b package ! j = foldl (\<lambda>p i. p[Suc i := f i]) p0 [0..<32] ! j"
      unfolding d by simp
    also have "\<dots> = (if j \<noteq> 0 \<and> j - 1 \<in> set [0..<32] then f (j - 1) else p0 ! j)" by (rule n)
    finally show ?thesis using False assms ne by (auto simp: f_def p0_def nth_list_update)
  qed
qed

lemma read_loop_pushed_length:
  "\<forall>p \<in> set (pushed (fst (read_loop k ts b first package n rs))). length p = length package"
proof (induction k ts b first package n rs rule: read_loop.induct)
  case (1 k ts b first package n rs)
  show ?case
  proof (cases "rs = []")
    case True
    then show ?thesis by (simp add: read_loop.simps [of _ _ _ _ _ _ "[]"] pushed_def)
  next
    case ne: False
    show ?thesis
    proof (cases "scan k b 0 rs")
      case Scan_Out_Of_Bounds
      with ne show ?thesis by (simp add: read_loop.simps [of k ts b first package n rs] pushed_def)
    next
      case (Scanned c b1 pos rs1)
      show ?thesis
        using ne Scanned "1.IH"(1) [OF ne Scanned] "1.IH"(2) [OF ne Scanned] "1.IH"(3) [OF ne Scanned]
        by (auto simp: read_loop.simps [of k ts b first package n rs] pushed_def logged_def Let_def)
    qed
  qed
qed

lemma read_loop_pushed_written:
  "\<forall>p \<in> set (pushed (fst (read_loop k ts b first package n rs))). \<forall>j < 34. p ! j \<noteq> None"
proof (induction k ts b first package n rs rule: read_loop.induct)
  case (1 k ts b first package n rs)
  show ?case
  proof (cases "rs = []")
    case True
    then show ?thesis by (simp add: read_loop.simps [of _ _ _ _ _ _ "[]"] pushed_def)
  next
    case ne: False
    show ?thesis
    proof (cases "scan k b 0 rs")
      case Scan_Out_Of_Bounds
      with ne show ?thesis by (simp add: read_loop.simps [of k ts b first package n rs] pushed_def)
    next
      case (Scanned c b1 pos rs1)
      show ?thesis
        using ne Scanned "1.IH"(1) [OF ne Scanned] "1.IH"(2) [OF ne Scanned] "1.IH"(3) [OF ne Scanned]
        by (auto simp: read_loop.simps [of k ts b first package n rs] pushed_def logged_def Let_def
            decode_package_nth)
    qed
  qed
qed

lemma frames_simps [simp]:
  "frames [] = []"
  "frames (No_Frame pos # its) = frames its"
  "frames (First_Package_Dropped # its) = First_Package_Dropped # frames its"
  "frames (Pushed p # its) = Pushed p # frames its"
  by (simp_all add: frames_def)

lemma read_loop_frames:
  "if first then \<exists>ps. frames (fst (read_loop k ts b first package n rs)) = map Pushed ps
   else frames (fst (read_loop k ts b first package n rs)) = []
        \<or> (\<exists>ps. frames (fst (read_loop k ts b first package n rs)) = First_Package_Dropped # map Pushed ps)"
proof (induction k ts b first package n rs rule: read_loop.induct)
  case (1 k ts b first package n rs)
  show ?case
  proof (cases "rs = []")
    case True
    then show ?thesis by (simp add: read_loop.simps [of _ _ _ _ _ _ "[]"])
  next
    case ne: False
    show ?thesis
    proof (cases "scan k b 0 rs")
      case Scan_Out_Of_Bounds
      with ne show ?thesis by (simp add: read_loop.simps [of k ts b _ package n rs])
    next
      case (Scanned c b1 pos rs1)
      note step = read_loop.simps [of k ts b _ package n rs]
      show ?thesis
      proof (cases c)
        case False
        with ne Scanned "1.IH"(3) [OF ne Scanned] show ?thesis
          by (cases first) (simp_all add: step logged_def)
      next
        case c: True
        show ?thesis
        proof (cases first)
          case False
          with c ne Scanned "1.IH"(1) [OF ne Scanned] show ?thesis
            by (simp add: step logged_def)
        next
          case f: True
          show ?thesis
          proof (cases "length package < 34")
            case True
            with f c ne Scanned show ?thesis by (simp add: step)
          next
            case False
            from "1.IH"(2) [OF ne Scanned c _ False] f obtain ps where
              "frames (fst (read_loop k ts b1 True (decode_package (eeg_scale k) (ts n) b1 package) (Suc n) rs1))
                 = map Pushed ps"
              by auto
            then have "frames (fst (read_loop k ts b first package n rs))
                = map Pushed (decode_package (eeg_scale k) (ts n) b1 package # ps)"
              using f c ne Scanned False by (simp add: step logged_def Let_def)
            with f show ?thesis by metis
          qed
        qed
      qed
    qed
  qed
qed

lemma read_loop_windows:
  "34 \<le> length package \<Longrightarrow>
   map found_frame (fst (read_loop k ts b first package n rs)) = map fst (windows k b rs)"
proof (induction k ts b first package n rs rule: read_loop.induct)
  case (1 k ts b first package n rs)
  show ?case
  proof (cases "rs = []")
    case True
    then show ?thesis
      by (simp add: read_loop.simps [of _ _ _ _ _ _ "[]"] windows.simps [of _ _ "[]"])
  next
    case ne: False
    note step = read_loop.simps [of k ts b _ package n rs] windows.simps [of k b rs]
    show ?thesis
    proof (cases "scan k b 0 rs")
      case Scan_Out_Of_Bounds
      with ne show ?thesis by (simp add: step)
    next
      case (Scanned c b1 pos rs1)
      show ?thesis
        using ne Scanned "1.prems" "1.IH"(1) [OF ne Scanned] "1.IH"(2) [OF ne Scanned]
          "1.IH"(3) [OF ne Scanned]
        by (cases c; cases first) (simp_all add: step logged_def Let_def)
    qed
  qed
qed

lemma decode_package_twice:
  "34 \<le> length p \<Longrightarrow>
   decode_package s t b (decode_package s' t' b' p) = decode_package s t b p"
  by (rule nth_equalityI) (simp_all add: decode_package_nth)

lemma read_loop_frames_decoded:
  assumes "34 \<le> rows"
    and "package = replicate rows None \<or> (\<exists>s t c. package = decode_package s t c (replicate rows None))"
  shows "frames (fst (read_loop k ts b first package n rs))
    = (if first then map Pushed (decoded k ts rows n (map snd (filter fst (windows k b rs))))
       else case map snd (filter fst (windows k b rs)) of
              [] \<Rightarrow> []
            | c # cs \<Rightarrow> First_Package_Dropped # map Pushed (decoded k ts rows n cs))"
  using assms(2)
proof (induction k ts b first package n rs rule: read_loop.induct)
  case (1 k ts b first package n rs)
  from "1.prems" assms(1) have len: "34 \<le> length package" by auto
  show ?case
  proof (cases "rs = []")
    case True
    then show ?thesis
      by (simp add: read_loop.simps [of _ _ _ _ _ _ "[]"] windows.simps [of _ _ "[]"])
  next
    case ne: False
    note step = read_loop.simps [of k ts b _ package n rs] windows.simps [of k b rs]
    show ?thesis
    proof (cases "scan k b 0 rs")
      case Scan_Out_Of_Bounds
      with ne show ?thesis by (simp add: step)
    next
      case (Scanned c b1 pos rs1)
      show ?thesis
      proof (cases c)
        case False
        with ne Scanned "1.IH"(3) [OF ne Scanned _ "1.prems"] show ?thesis
          by (cases first) (simp_all add: step logged_def)
      next
        case c: True
        show ?thesis
        proof (cases first)
          case False
          with c ne Scanned "1.IH"(1) [OF ne Scanned c _ "1.prems"] show ?thesis
            by (simp add: step logged_def)
        next
          case f: True
          define package1 where "package1 = decode_package (eeg_scale k) (ts n) b1 package"
          have fresh: "package1 = decode_package (eeg_scale k) (ts n) b1 (replicate rows None)"
            using "1.prems" assms(1) by (auto simp: package1_def decode_package_twice)
          then have inv: "package1 = replicate rows None
              \<or> (\<exists>s t c. package1 = decode_package s t c (replicate rows None))"
            by blast
          have nl: "\<not> length package < 34" using len by simp
          have nnf: "\<not> \<not> first" using f by simp
          from "1.IH"(2) [OF ne Scanned c nnf nl package1_def inv] f
          have "frames (fst (read_loop k ts b1 True package1 (Suc n) rs1))
              = map Pushed (decoded k ts rows (Suc n) (map snd (filter fst (windows k b1 rs1))))"
            by simp
          then show ?thesis
            using f c ne Scanned nl fresh
            by (simp add: step logged_def Let_def package1_def)
        qed
      qed
    qed
  qed
qed

lemma length_decoded [simp]: "length (decoded k ts rows n bs) = length bs"
  by (induction bs arbitrary: n) simp_all

lemma decoded_nth:
  "j < length bs \<Longrightarrow>
   decoded k ts rows n bs ! j
     = decode_package (eeg_scale k) (ts (n + j)) (bs ! j) (replicate rows None)"
proof (induction bs arbitrary: n j)
  case Nil
  then show ?case by simp
next
  case (Cons b bs)
  then show ?case by (cases j) simp_all
qed

lemma pushed_frames: "pushed its = concat (map (\<lambda>i. case i of Pushed p \<Rightarrow> [p] | _ \<Rightarrow> []) (frames its))"
proof (induction its)
  case Nil
  then show ?case by (simp add: pushed_def)
next
  case (Cons i its)
  then show ?case by (cases i) (simp_all add: pushed_def)
qed

lemma pushed_map_Pushed: "concat (map (\<lambda>i. case i of Pushed p \<Rightarrow> [p] | _ \<Rightarrow> []) (map Pushed ps)) = ps"
  by (induction ps) simp_all

lemma length_store_recv [simp]: "length (store_recv package r) = length package"
  by (cases r) simp

lemma relay_loop_length: "length (relay_loop bpr package rs) = length rs"
  by (induction rs arbitrary: package) (simp_all add: Let_def)

lemma relay_loop_nth:
  "i < length rs \<Longrightarrow> (relay_loop bpr package rs ! i = None) = (recv_res (rs ! i) \<noteq> bpr)"
proof (induction rs arbitrary: package i)
  case Nil
  then show ?case by simp
next
  case (Cons r rs)
  then show ?case by (cases i) (simp_all add: Let_def)
qed

lemma relay_loop_sample_length:
  "Some p \<in> set (relay_loop bpr package rs) \<Longrightarrow> length p = length package"
proof (induction rs arbitrary: package)
  case Nil
  then show ?case by simp
next
  case (Cons r rs)
  from Cons.prems have "p = store_recv package r \<or> Some p \<in> set (relay_loop bpr (store_recv package r) rs)"
    by (auto simp: Let_def split: if_splits)
  then show ?case using Cons.IH [of "store_recv package r"] by auto
qed

lemma bytes_per_recv_small:
  assumes "0 \<le> n" and "n < 2 ^ 28"
  shows "bytes_per_recv n = 8 * n"
proof -
  have "sint (word_of_int (8 * n) :: 32 word) = signed_take_bit (LENGTH(32) - 1) (8 * n)"
    by (rule sint_sbintrunc')
  also have "\<dots> = signed_take_bit 31 (8 * n)" by simp
  also have "\<dots> = 8 * n"
    using assms by (intro signed_take_bit_int_eq_self) simp_all
  finally have "sint (word_of_int (8 * n) :: 32 word) = 8 * n" .
  then show ?thesis by (simp add: bytes_per_recv_def)
qed


section \<open>Properties of prepare_session\<close>

lemma FreeEEG32_prepare_ok:
  assumes "FreeEEG32_prepare_session h s = Returns STATUS_OK s1" and "\<not> initialized s"
  shows "initialized s1
    \<and> effects s1 = effects s @ [New_Serial (serial_port (params s)), Open_Serial_Port,
          Set_Serial_Port_Settings 1000 (win32 h)] @ (if win32 h then [] else [Set_Custom_Baudrate 921600])"
proof (cases "serial_port (params s) = [] \<or> is_port_open h \<or> open_serial_port h < 0
    \<or> set_serial_port_settings h < 0 \<or> (\<not> win32 h \<and> set_custom_baudrate h < 0)")
  case True
  then have "exit_code (FreeEEG32_prepare_session h s) \<noteq> Some STATUS_OK"
    using assms(2)
    by (auto simp: FreeEEG32_prepare_session_def open_port_def set_port_settings_def Let_def)
  with assms(1) show ?thesis by simp
next
  case False
  with assms show ?thesis
    by (cases "win32 h")
      (auto simp: FreeEEG32_prepare_session_def open_port_def set_port_settings_def Let_def calls_def)
qed

lemma StreamingBoard_prepare_ok:
  assumes "StreamingBoard_prepare_session h t = Returns STATUS_OK t1" and "\<not> initialized t"
  shows "initialized t1
    \<and> effects t1 = effects t @ [New_MultiCastClient (ip_address (params t)) (ip_port (params t)), Client_Init]"
proof (cases "stoi (other_info (params t))")
  case None
  with assms show ?thesis by (simp add: StreamingBoard_prepare_session_def split: if_splits)
next
  case (Some n)
  with assms show ?thesis
    by (auto simp: StreamingBoard_prepare_session_def Let_def calls_def split: if_splits)
qed


section \<open>The claims about prepare_session\<close>

text \<open>
  Claim C1, as it is stated, does not hold.  It says that a delegate board identifier
  which is not empty and does not parse to an integer makes the relay driver's
  \<^verbatim>\<open>prepare_session\<close> return \<open>ConfigurationError\<close> and no other code.  For the identifier
  \<open>abc\<close> the driver returns \<^verbatim>\<open>INVALID_ARGUMENTS_ERROR\<close>, the code of a missing
  configuration (\<open>InvalidArgument\<close>).
\<close>

theorem unparsable_delegate_is_not_configuration_error:
  "other_info (relay_params ''abc'') \<noteq> []
   \<and> stoi (other_info (relay_params ''abc'')) = None
   \<and> map_option result_name_of
        (exit_code (StreamingBoard_prepare_session posix_host
           (StreamingBoard_new (- 2) (relay_params ''abc''))))
      = Some InvalidArgument
   \<and> InvalidArgument \<noteq> ConfigurationError"
  by (simp add: StreamingBoard_prepare_session_def StreamingBoard_new_def relay_params_def stoi_abc)

text \<open>
  Claim C1, amended: for every configuration whose delegate board identifier is not empty
  and does not parse to an integer, \<^verbatim>\<open>prepare_session\<close> of the relay driver on a session
  that is not prepared returns \<^verbatim>\<open>INVALID_ARGUMENTS_ERROR\<close> (\<open>InvalidArgument\<close>), whatever the
  other fields of the configuration and the host are, and leaves every member of the
  session as it was; the session stays unprepared.
\<close>

theorem unparsable_delegate_is_invalid_argument:
  assumes "\<not> initialized s"
    and "other_info (params s) \<noteq> []"
    and "stoi (other_info (params s)) = None"
  shows "StreamingBoard_prepare_session h s = Returns INVALID_ARGUMENTS_ERROR s
         \<and> map_option result_name_of (exit_code (StreamingBoard_prepare_session h s))
             = Some InvalidArgument"
  using assms by (simp add: StreamingBoard_prepare_session_def)

theorem unparsable_delegate_is_invalid_argument_witness:
  "\<not> initialized (StreamingBoard_new (- 2) (relay_params ''abc''))
   \<and> other_info (params (StreamingBoard_new (- 2) (relay_params ''abc''))) \<noteq> []
   \<and> stoi (other_info (params (StreamingBoard_new (- 2) (relay_params ''abc'')))) = None
   \<and> StreamingBoard_prepare_session posix_host (StreamingBoard_new (- 2) (relay_params ''abc''))
       = Returns INVALID_ARGUMENTS_ERROR (StreamingBoard_new (- 2) (relay_params ''abc''))"
  using unparsable_delegate_is_invalid_argument
    [of "StreamingBoard_new (- 2) (relay_params ''abc'')" posix_host]
  by (simp add: StreamingBoard_new_def relay_params_def stoi_abc)

text \<open>
  Claim C2 says that a \<^verbatim>\<open>prepare_session\<close> which fails after the transport was partly
  acquired gives it back before it returns: the handle is null again and the session is
  not initialized.  The serial driver does so on each of its failures (shown after this
  theorem).  The relay driver does not: when the
  socket set-up fails it returns \<^verbatim>\<open>GENERAL_ERROR\<close> and keeps the \<^verbatim>\<open>MultiCastClient\<close> it
  allocated, never calling \<^verbatim>\<open>delete\<close>.
\<close>

theorem relay_prepare_keeps_client_after_init_failure:
  "StreamingBoard_prepare_session no_socket_host new_relay = Returns GENERAL_ERROR failed_relay
   \<and> client new_relay = None
   \<and> client failed_relay = Some (MultiCastClient ''225.1.1.1'' 6677)
   \<and> Delete_MultiCastClient \<notin> set (effects failed_relay)
   \<and> \<not> initialized failed_relay"
  by (simp add: StreamingBoard_prepare_session_def calls_def examples stoi_17)

text \<open>
  The serial driver's side of claim C2: whatever fails in its \<^verbatim>\<open>prepare_session\<close>, the
  \<^verbatim>\<open>Serial\<close> object is deleted, \<open>serial\<close> is null and the session is not initialized.
\<close>

lemma FreeEEG32_prepare_failure_cleans_up:
  assumes "FreeEEG32_prepare_session h s = Returns c s'"
    and "c \<noteq> STATUS_OK" and "\<not> initialized s" and "serial s = None"
  shows "serial s' = None \<and> \<not> initialized s'
         \<and> count_list (effects s') Delete_Serial - count_list (effects s) Delete_Serial
            = count_list (effects s') (New_Serial (serial_port (params s)))
              - count_list (effects s) (New_Serial (serial_port (params s)))"
  using assms
  by (auto simp: FreeEEG32_prepare_session_def open_port_def set_port_settings_def calls_def Let_def
      split: if_splits)

lemma FreeEEG32_prepare_failure_cleans_up_witness:
  "FreeEEG32_prepare_session (posix_host\<lparr>set_custom_baudrate := - 1\<rparr>) new_serial
     = Returns SET_PORT_ERROR
         (new_serial\<lparr>effects := [New_Serial ''/dev/ttyACM0'', Open_Serial_Port,
            Set_Serial_Port_Settings 1000 False, Set_Custom_Baudrate 921600, Delete_Serial]\<rparr>)
   \<and> SET_PORT_ERROR \<noteq> STATUS_OK \<and> \<not> initialized new_serial \<and> serial new_serial = None
   \<and> serial (new_serial\<lparr>effects := [New_Serial ''/dev/ttyACM0'', Open_Serial_Port,
            Set_Serial_Port_Settings 1000 False, Set_Custom_Baudrate 921600, Delete_Serial]\<rparr>) = None"
  using FreeEEG32_prepare_failure_cleans_up
    [of "posix_host\<lparr>set_custom_baudrate := - 1\<rparr>" new_serial SET_PORT_ERROR
        "new_serial\<lparr>effects := [New_Serial ''/dev/ttyACM0'', Open_Serial_Port,
            Set_Serial_Port_Settings 1000 False, Set_Custom_Baudrate 921600, Delete_Serial]\<rparr>"]
  by (simp add: FreeEEG32_prepare_session_def open_port_def set_port_settings_def calls_def examples)

text \<open>
  Claim C7: for both drivers, a second \<^verbatim>\<open>prepare_session\<close> on a session whose first one
  succeeded (and with no \<^verbatim>\<open>release_session\<close> in between) returns \<^verbatim>\<open>STATUS_OK\<close> and leaves
  every member of the session as it was, whatever the host would answer; over both calls
  the transport was opened exactly once.
\<close>

theorem prepare_twice_opens_once:
  "(\<not> initialized s \<and> FreeEEG32_prepare_session h s = Returns STATUS_OK s1
      \<longrightarrow> FreeEEG32_prepare_session h' s1 = Returns STATUS_OK s1
          \<and> opens_of_transport (effects s1) = opens_of_transport (effects s) + 1)
   \<and> (\<not> initialized t \<and> StreamingBoard_prepare_session h t = Returns STATUS_OK t1
      \<longrightarrow> StreamingBoard_prepare_session h' t1 = Returns STATUS_OK t1
          \<and> opens_of_transport (effects t1) = opens_of_transport (effects t) + 1)"
proof (intro conjI impI)
  assume a: "\<not> initialized s \<and> FreeEEG32_prepare_session h s = Returns STATUS_OK s1"
  then have b: "initialized s1"
    and e: "effects s1 = effects s @ [New_Serial (serial_port (params s)), Open_Serial_Port,
          Set_Serial_Port_Settings 1000 (win32 h)]
          @ (if win32 h then [] else [Set_Custom_Baudrate 921600])"
    using FreeEEG32_prepare_ok [of h s s1] by simp_all
  from b show "FreeEEG32_prepare_session h' s1 = Returns STATUS_OK s1"
    by (simp add: FreeEEG32_prepare_session_def)
  show "opens_of_transport (effects s1) = opens_of_transport (effects s) + 1"
    unfolding e by (simp add: opens_of_transport_def)
next
  assume a: "\<not> initialized t \<and> StreamingBoard_prepare_session h t = Returns STATUS_OK t1"
  then have b: "initialized t1"
    and e: "effects t1 = effects t
          @ [New_MultiCastClient (ip_address (params t)) (ip_port (params t)), Client_Init]"
    using StreamingBoard_prepare_ok [of h t t1] by simp_all
  from b show "StreamingBoard_prepare_session h' t1 = Returns STATUS_OK t1"
    by (simp add: StreamingBoard_prepare_session_def)
  show "opens_of_transport (effects t1) = opens_of_transport (effects t) + 1"
    unfolding e by (simp add: opens_of_transport_def)
qed

theorem prepare_twice_opens_once_witness:
  "\<not> initialized new_serial
   \<and> FreeEEG32_prepare_session posix_host new_serial = Returns STATUS_OK prepared_serial
   \<and> FreeEEG32_prepare_session no_socket_host prepared_serial = Returns STATUS_OK prepared_serial
   \<and> opens_of_transport (effects new_serial) = 0
   \<and> opens_of_transport (effects prepared_serial) = 1
   \<and> \<not> initialized new_relay
   \<and> StreamingBoard_prepare_session posix_host new_relay = Returns STATUS_OK prepared_relay
   \<and> StreamingBoard_prepare_session no_socket_host prepared_relay = Returns STATUS_OK prepared_relay
   \<and> opens_of_transport (effects new_relay) = 0
   \<and> opens_of_transport (effects prepared_relay) = 1"
  using prepare_twice_opens_once
    [of new_serial posix_host prepared_serial no_socket_host new_relay prepared_relay]
  by (simp add: serial_prepares relay_prepares)
     (simp add: examples opens_of_transport_def)

text \<open>
  Claim C10: when the relay driver's \<^verbatim>\<open>prepare_session\<close> fails at the socket set-up, after
  the delegate identifier was parsed, it returns (\<^verbatim>\<open>GENERAL_ERROR\<close>) with \<open>initialized\<close> still
  false, and two members keep what was written to them: \<open>board_id\<close> holds the parsed
  delegate identifier and \<open>client\<close> holds the allocated \<^verbatim>\<open>MultiCastClient\<close>.  A
  \<^verbatim>\<open>release_session\<close> on that session returns \<^verbatim>\<open>STATUS_OK\<close> and changes nothing: the client is
  not deleted.
\<close>

theorem relay_init_failure_not_rolled_back:
  assumes "\<not> initialized s"
    and "ip_address (params s) \<noteq> []" and "ip_port (params s) \<noteq> 0"
    and "stoi (other_info (params s)) = Some n"
    and "client_init h \<noteq> MultiCast_STATUS_OK"
  shows "\<exists>s'. StreamingBoard_prepare_session h s = Returns GENERAL_ERROR s'
           \<and> \<not> initialized s' \<and> board_id s' = n
           \<and> client s' = Some (MultiCastClient (ip_address (params s)) (ip_port (params s)))
           \<and> StreamingBoard_release_session s' = Returns STATUS_OK s'"
proof -
  from assms(4) have "other_info (params s) \<noteq> []"
    by (auto simp: stoi_def)
  with assms show ?thesis
    by (simp add: StreamingBoard_prepare_session_def StreamingBoard_release_session_def calls_def)
qed

theorem relay_init_failure_not_rolled_back_witness:
  "\<not> initialized new_relay
   \<and> ip_address (params new_relay) \<noteq> [] \<and> ip_port (params new_relay) \<noteq> 0
   \<and> stoi (other_info (params new_relay)) = Some 17
   \<and> client_init no_socket_host \<noteq> MultiCast_STATUS_OK
   \<and> board_id new_relay = - 2 \<and> client new_relay = None
   \<and> StreamingBoard_prepare_session no_socket_host new_relay = Returns GENERAL_ERROR failed_relay
   \<and> \<not> initialized failed_relay \<and> board_id failed_relay = 17
   \<and> client failed_relay = Some (MultiCastClient ''225.1.1.1'' 6677)
   \<and> StreamingBoard_release_session failed_relay = Returns STATUS_OK failed_relay"
  using relay_init_failure_not_rolled_back [of new_relay 17 no_socket_host]
  by (simp add: examples stoi_17 StreamingBoard_prepare_session_def
      StreamingBoard_release_session_def calls_def)

section \<open>The claims about start_stream, stop_stream and release_session\<close>

text \<open>
  Claim C6: for both drivers and every state of the session, \<^verbatim>\<open>start_stream\<close> on a session
  that is streaming returns \<^verbatim>\<open>STREAM_ALREADY_RUN_ERROR\<close> (\<open>AlreadyRunning\<close>), \<^verbatim>\<open>stop_stream\<close> on
  a session that is not streaming returns \<^verbatim>\<open>STREAM_THREAD_IS_NOT_RUNNING\<close> (\<open>NotRunning\<close>), and
  both leave every member of the session as it was.
\<close>

theorem lifecycle_guards_leave_the_session:
  "(is_streaming s \<longrightarrow> FreeEEG32_start_stream h n s = Returns STREAM_ALREADY_RUN_ERROR s)
   \<and> (\<not> is_streaming s \<longrightarrow> FreeEEG32_stop_stream s = Returns STREAM_THREAD_IS_NOT_RUNNING s)
   \<and> (is_streaming t \<longrightarrow> StreamingBoard_start_stream h n t = Returns STREAM_ALREADY_RUN_ERROR t)
   \<and> (\<not> is_streaming t \<longrightarrow> StreamingBoard_stop_stream t = Returns STREAM_THREAD_IS_NOT_RUNNING t)
   \<and> result_name_of STREAM_ALREADY_RUN_ERROR = AlreadyRunning
   \<and> result_name_of STREAM_THREAD_IS_NOT_RUNNING = NotRunning"
  by (simp add: FreeEEG32_start_stream_def FreeEEG32_stop_stream_def
      StreamingBoard_start_stream_def StreamingBoard_stop_stream_def)

theorem lifecycle_guards_leave_the_session_witness:
  "is_streaming streaming_serial
   \<and> FreeEEG32_start_stream posix_host 45000 streaming_serial
       = Returns STREAM_ALREADY_RUN_ERROR streaming_serial
   \<and> \<not> is_streaming prepared_serial
   \<and> FreeEEG32_stop_stream prepared_serial = Returns STREAM_THREAD_IS_NOT_RUNNING prepared_serial
   \<and> is_streaming streaming_relay
   \<and> StreamingBoard_start_stream posix_host 45000 streaming_relay
       = Returns STREAM_ALREADY_RUN_ERROR streaming_relay
   \<and> \<not> is_streaming new_relay
   \<and> StreamingBoard_stop_stream new_relay = Returns STREAM_THREAD_IS_NOT_RUNNING new_relay"
  using lifecycle_guards_leave_the_session [of streaming_serial posix_host 45000 streaming_relay]
    lifecycle_guards_leave_the_session [of prepared_serial posix_host 45000 new_relay]
  by (simp add: examples)

text \<open>
  Claim C9 says that \<^verbatim>\<open>release_session\<close> of both drivers returns \<open>Ok\<close> from every state,
  stops a running stream first, leaves the transport handle null and the session idle.
  The relay driver does all of this only inside \<^verbatim>\<open>if (initialized)\<close>.  After a
  \<^verbatim>\<open>prepare_session\<close> whose socket set-up failed, \<^verbatim>\<open>start_stream\<close> succeeds (it does not ask
  for \<open>initialized\<close>), and \<^verbatim>\<open>release_session\<close> then returns \<^verbatim>\<open>STATUS_OK\<close> without stopping
  the stream and without deleting the client.
\<close>

theorem relay_release_skips_unprepared_session:
  "StreamingBoard_prepare_session no_socket_host new_relay = Returns GENERAL_ERROR failed_relay
   \<and> StreamingBoard_start_stream posix_host 45000 failed_relay
       = Returns STATUS_OK started_failed_relay
   \<and> StreamingBoard_release_session started_failed_relay
       = Returns STATUS_OK started_failed_relay
   \<and> is_streaming started_failed_relay \<and> keep_alive started_failed_relay
   \<and> streaming_thread started_failed_relay
   \<and> client started_failed_relay = Some (MultiCastClient ''225.1.1.1'' 6677)
   \<and> StreamingBoard_release_session failed_relay = Returns STATUS_OK failed_relay
   \<and> client failed_relay = Some (MultiCastClient ''225.1.1.1'' 6677)"
  by (simp add: StreamingBoard_prepare_session_def StreamingBoard_start_stream_def
      StreamingBoard_release_session_def calls_def examples stoi_17)

text \<open>
  What holds of \<^verbatim>\<open>release_session\<close> in the serial driver, from every state: it returns
  \<^verbatim>\<open>STATUS_OK\<close>, afterwards \<open>serial\<close> is null and the session is not initialized, a stream
  of an initialized session is stopped, and a second call changes nothing.
\<close>

lemma FreeEEG32_release_is_total_and_idempotent:
  "\<exists>s'. FreeEEG32_release_session s = Returns STATUS_OK s'
         \<and> serial s' = None \<and> \<not> initialized s'
         \<and> is_streaming s' = (is_streaming s \<and> \<not> initialized s)
         \<and> FreeEEG32_release_session s' = Returns STATUS_OK s'"
  by (cases "initialized s"; cases "is_streaming s"; cases "streaming_thread s";
      cases "streamer s"; cases "serial s")
     (simp_all add: FreeEEG32_release_session_def FreeEEG32_stop_stream_def and_then_def calls_def)

text \<open>
  What holds of \<^verbatim>\<open>release_session\<close> in the relay driver: from every state in which a
  running stream has a joinable thread it returns \<^verbatim>\<open>STATUS_OK\<close>, the session is not
  initialized afterwards and a second call changes nothing; the stream is stopped and
  the client deleted when the session was initialized.
\<close>

lemma StreamingBoard_release_when_prepared:
  assumes "is_streaming s \<longrightarrow> streaming_thread s"
  shows "\<exists>s'. StreamingBoard_release_session s = Returns STATUS_OK s'
           \<and> \<not> initialized s'
           \<and> StreamingBoard_release_session s' = Returns STATUS_OK s'
           \<and> (initialized s \<longrightarrow> client s' = None \<and> \<not> is_streaming s')"
  using assms
  by (cases "initialized s"; cases "is_streaming s"; cases "streamer s"; cases "client s")
     (simp_all add: StreamingBoard_release_session_def StreamingBoard_stop_stream_def
        and_then_def calls_def)

lemma StreamingBoard_release_when_prepared_witness:
  "is_streaming streaming_relay \<and> streaming_thread streaming_relay \<and> initialized streaming_relay
   \<and> StreamingBoard_release_session streaming_relay
       = Returns STATUS_OK
           (prepared_relay\<lparr>initialized := False, client := None,
              effects := effects streaming_relay
                @ [Thread_Join, Delete_Streamer, Delete_MultiCastClient]\<rparr>)"
  using StreamingBoard_release_when_prepared [of streaming_relay]
  by (simp add: StreamingBoard_release_session_def StreamingBoard_stop_stream_def
      and_then_def calls_def examples)

section \<open>The claims about the workers\<close>

text \<open>
  Claim C3: in every run of either worker, whatever bytes or packets arrive, every sample
  handed to \<^verbatim>\<open>push_package\<close> has exactly as many elements as the row count that the
  registry gave for the session's board.  In particular, with the row count of the
  specification's ChannelLayout for the 32 channels of the serial board, the fields the
  serial worker writes (a marker, 32 channels, a time stamp, at the indices 0 to 33) are
  exactly the elements of the sample: it has \<open>1 + 32 + 1\<close> elements and none is left
  unwritten.
\<close>

theorem pushed_samples_have_layout_length:
  "(\<forall>p \<in> set (pushed (fst (FreeEEG32_read_thread k get_num_rows ts board rs))).
      length p = nat (rows_of get_num_rows board))
   \<and> (\<forall>p. Some p \<in> set (fst (StreamingBoard_read_thread get_num_rows board rv))
      \<longrightarrow> length p = nat (rows_of get_num_rows board))
   \<and> (get_num_rows board = Some (int (ChannelLayout_length 32))
      \<longrightarrow> (\<forall>p \<in> set (pushed (fst (FreeEEG32_read_thread k get_num_rows ts board rs))).
            length p = 1 + 32 + 1 \<and> (\<forall>j < length p. p ! j \<noteq> None)))"
proof -
  have serial: "length p = nat (rows_of get_num_rows board)"
    if "p \<in> set (pushed (fst (FreeEEG32_read_thread k get_num_rows ts board rs)))" for p
    using that read_loop_pushed_length
      [of k ts "replicate (nat max_size) 0" False
          "replicate (nat (rows_of get_num_rows board)) None" 0 rs]
    by (auto simp: FreeEEG32_read_thread_def Let_def rows_of_def pushed_def split: if_splits)
  have relay: "length p = nat (rows_of get_num_rows board)"
    if "Some p \<in> set (fst (StreamingBoard_read_thread get_num_rows board rv))" for p
    using that relay_loop_sample_length
      [of p "bytes_per_recv (rows_of get_num_rows board)"
          "replicate (nat (rows_of get_num_rows board)) None" rv]
    by (auto simp: StreamingBoard_read_thread_def Let_def rows_of_def split: if_splits)
  have layout: "length p = 1 + 32 + 1 \<and> (\<forall>j < length p. p ! j \<noteq> None)"
    if g: "get_num_rows board = Some (int (ChannelLayout_length 32))"
      and p: "p \<in> set (pushed (fst (FreeEEG32_read_thread k get_num_rows ts board rs)))" for p
  proof -
    from g p have m: "p \<in> set (pushed (fst (read_loop k ts (replicate (nat max_size) 0) False
        (replicate 34 None) 0 rs)))"
      by (simp add: FreeEEG32_read_thread_def ChannelLayout_length_def)
    from m have l: "length p = 34"
      using read_loop_pushed_length
        [of k ts "replicate (nat max_size) 0" False "replicate 34 None" 0 rs] by simp
    from m have w: "\<forall>j < 34. p ! j \<noteq> None"
      using read_loop_pushed_written
        [of k ts "replicate (nat max_size) 0" False "replicate 34 None" 0 rs] by blast
    from l w show ?thesis by simp
  qed
  from serial relay layout show ?thesis by blast
qed

theorem pushed_samples_have_layout_length_witness:
  "decode_package (eeg_scale wire) (clock 0) (buffer_of 2 full_scale_first) (replicate 34 None)
     \<in> set (pushed (fst (FreeEEG32_read_thread wire registry clock 17
                            (frame 1 silence @ noise @ frame 2 full_scale_first))))
   \<and> registry 17 = Some (int (ChannelLayout_length 32))
   \<and> nat (rows_of registry 17) = 34
   \<and> length (decode_package (eeg_scale wire) (clock 0) (buffer_of 2 full_scale_first)
               (replicate 34 None)) = 34
   \<and> None \<notin> set (decode_package (eeg_scale wire) (clock 0) (buffer_of 2 full_scale_first)
                    (replicate 34 None))
   \<and> Some [Some 4, Some 5, Some 6] \<in> set (fst (StreamingBoard_read_thread registry 1 packets))
   \<and> nat (rows_of registry 1) = 3
   \<and> length [Some 4, Some 5, Some (6::real)] = 3"
proof -
  let ?p = "decode_package (eeg_scale wire) (clock 0) (buffer_of 2 full_scale_first)
              (replicate 34 None)"
  let ?run = "FreeEEG32_read_thread wire registry clock 17
                (frame 1 silence @ noise @ frame 2 full_scale_first)"
  have m: "?p \<in> set (pushed (fst ?run))"
    by (simp add: resync_run pushed_def)
  have g: "registry 17 = Some (int (ChannelLayout_length 32))"
    by (simp add: registry_def)
  have r: "Some [Some 4, Some 5, Some 6] \<in> set (fst (StreamingBoard_read_thread registry 1 packets))"
    by (simp add: relay_run)
  note serial = pushed_samples_have_layout_length
    [of wire registry clock 17 "frame 1 silence @ noise @ frame 2 full_scale_first" packets]
  note relay = pushed_samples_have_layout_length
    [of wire registry clock 1 "[]" packets]
  from serial m g have "length ?p = 1 + 32 + 1 \<and> (\<forall>j < length ?p. ?p ! j \<noteq> None)"
    by blast
  then have w: "length ?p = 34" "None \<notin> set ?p"
    by (auto simp: in_set_conv_nth)
  from serial m have rows: "nat (rows_of registry 17) = 34"
    using w(1) by auto
  from relay r have "length [Some 4, Some 5, Some (6::real)] = nat (rows_of registry 1)"
    by blast
  then have rows': "nat (rows_of registry 1) = 3" by simp
  from m g r w rows rows' show ?thesis by simp
qed

text \<open>
  Claim C4: in every run of the serial worker, exactly the first complete frame found
  after the worker starts is dropped without a sample, and every complete frame found
  later in the same run is decoded and pushed, also after the scan window was exhausted
  in between.  Of the passes of the outer loop that found a frame, the first is the
  dropped one and all later ones pushed a sample.  With a sample array of at least the 34
  elements the decoder writes, the passes are the scan windows of the stream one for one,
  a pass having found a frame exactly where the window ended on a complete one; the
  frame of the first complete window is dropped, and the \<open>n\<close>-th sample pushed is the
  decoding of the buffer of the complete window after it, number \<open>n + 1\<close>: its marker byte,
  its 32 scaled channels and the \<open>n\<close>-th time stamp.
\<close>

theorem first_frame_dropped_once:
  "(frames (fst (FreeEEG32_read_thread k get_num_rows ts board rs)) = []
    \<or> (\<exists>ps. frames (fst (FreeEEG32_read_thread k get_num_rows ts board rs))
           = First_Package_Dropped # map Pushed ps))
   \<and> (34 \<le> rows_of get_num_rows board
      \<longrightarrow> map found_frame (fst (FreeEEG32_read_thread k get_num_rows ts board rs))
            = map fst (windows k (replicate (nat max_size) 0) rs)
          \<and> frames (fst (FreeEEG32_read_thread k get_num_rows ts board rs))
            = (case complete_windows k rs of
                 [] \<Rightarrow> []
               | b # bs \<Rightarrow> First_Package_Dropped
                          # map Pushed (decoded k ts (nat (rows_of get_num_rows board)) 0 bs))
          \<and> length (pushed (fst (FreeEEG32_read_thread k get_num_rows ts board rs)))
            = length (complete_windows k rs) - 1
          \<and> (\<forall>n. Suc n < length (complete_windows k rs)
                \<longrightarrow> pushed (fst (FreeEEG32_read_thread k get_num_rows ts board rs)) ! n
                      = decode_package (eeg_scale k) (ts n) (complete_windows k rs ! Suc n)
                          (replicate (nat (rows_of get_num_rows board)) None)
                    \<and> pushed (fst (FreeEEG32_read_thread k get_num_rows ts board rs)) ! n ! 0
                      = Some (real (unat (complete_windows k rs ! Suc n ! 0)))
                    \<and> (\<forall>i < 32.
                          pushed (fst (FreeEEG32_read_thread k get_num_rows ts board rs)) ! n
                            ! (i + 1)
                          = Some (channel_value (eeg_scale k)
                                    (complete_windows k rs ! Suc n ! (1 + 3 * i))
                                    (complete_windows k rs ! Suc n ! (2 + 3 * i))
                                    (complete_windows k rs ! Suc n ! (3 + 3 * i))))
                    \<and> pushed (fst (FreeEEG32_read_thread k get_num_rows ts board rs)) ! n ! 33
                      = Some (ts n)))"
proof -
  let ?log = "fst (FreeEEG32_read_thread k get_num_rows ts board rs)"
  let ?rows = "nat (rows_of get_num_rows board)"
  have shape: "frames ?log = [] \<or> (\<exists>ps. frames ?log = First_Package_Dropped # map Pushed ps)"
    using read_loop_frames
      [of False k ts "replicate (nat max_size) 0"
          "replicate (nat (rows_of get_num_rows board)) None" 0 rs]
    by (auto simp: FreeEEG32_read_thread_def Let_def rows_of_def)
  have rest: "map found_frame ?log = map fst (windows k (replicate (nat max_size) 0) rs)
      \<and> frames ?log
        = (case complete_windows k rs of
             [] \<Rightarrow> []
           | b # bs \<Rightarrow> First_Package_Dropped # map Pushed (decoded k ts ?rows 0 bs))
      \<and> length (pushed ?log) = length (complete_windows k rs) - 1
      \<and> (\<forall>n. Suc n < length (complete_windows k rs)
            \<longrightarrow> pushed ?log ! n
                  = decode_package (eeg_scale k) (ts n) (complete_windows k rs ! Suc n)
                      (replicate ?rows None)
                \<and> pushed ?log ! n ! 0 = Some (real (unat (complete_windows k rs ! Suc n ! 0)))
                \<and> (\<forall>i < 32. pushed ?log ! n ! (i + 1)
                      = Some (channel_value (eeg_scale k)
                                (complete_windows k rs ! Suc n ! (1 + 3 * i))
                                (complete_windows k rs ! Suc n ! (2 + 3 * i))
                                (complete_windows k rs ! Suc n ! (3 + 3 * i))))
                \<and> pushed ?log ! n ! 33 = Some (ts n))"
    if big: "34 \<le> rows_of get_num_rows board"
  proof -
    from big have r: "34 \<le> ?rows" by simp
    have log: "?log = fst (read_loop k ts (replicate (nat max_size) 0) False
        (replicate ?rows None) 0 rs)"
      using big by (simp add: FreeEEG32_read_thread_def Let_def rows_of_def)
    have w: "map found_frame ?log = map fst (windows k (replicate (nat max_size) 0) rs)"
      unfolding log by (rule read_loop_windows) (use r in simp)
    have f: "frames ?log
        = (case complete_windows k rs of
             [] \<Rightarrow> []
           | b # bs \<Rightarrow> First_Package_Dropped # map Pushed (decoded k ts ?rows 0 bs))"
      unfolding log complete_windows_def
      using read_loop_frames_decoded
        [OF r, of "replicate ?rows None" k ts "replicate (nat max_size) 0" False 0 rs]
      by simp
    have p: "pushed ?log = decoded k ts ?rows 0 (tl (complete_windows k rs))"
      unfolding pushed_frames f
      by (cases "complete_windows k rs") (simp_all add: pushed_map_Pushed del: map_map)
    have l: "length (pushed ?log) = length (complete_windows k rs) - 1"
      unfolding p by simp
    have s: "pushed ?log ! n
          = decode_package (eeg_scale k) (ts n) (complete_windows k rs ! Suc n)
              (replicate ?rows None)
        \<and> pushed ?log ! n ! 0 = Some (real (unat (complete_windows k rs ! Suc n ! 0)))
        \<and> (\<forall>i < 32. pushed ?log ! n ! (i + 1)
              = Some (channel_value (eeg_scale k)
                        (complete_windows k rs ! Suc n ! (1 + 3 * i))
                        (complete_windows k rs ! Suc n ! (2 + 3 * i))
                        (complete_windows k rs ! Suc n ! (3 + 3 * i))))
        \<and> pushed ?log ! n ! 33 = Some (ts n)"
      if n: "Suc n < length (complete_windows k rs)" for n
    proof -
      from n have "n < length (tl (complete_windows k rs))" by simp
      then have "pushed ?log ! n
          = decode_package (eeg_scale k) (ts (0 + n)) (tl (complete_windows k rs) ! n)
              (replicate ?rows None)"
        unfolding p by (rule decoded_nth)
      moreover from n have "tl (complete_windows k rs) ! n = complete_windows k rs ! Suc n"
        by (simp add: nth_tl)
      ultimately have d: "pushed ?log ! n
          = decode_package (eeg_scale k) (ts n) (complete_windows k rs ! Suc n)
              (replicate ?rows None)"
        by simp
      show ?thesis
        unfolding d using r by (simp add: decode_package_nth)
    qed
    from w f l s show ?thesis by blast
  qed
  from shape rest show ?thesis by blast
qed

theorem first_frame_dropped_once_witness:
  "34 \<le> rows_of registry 17
   \<and> windows wire (replicate (nat max_size) 0)
        (frame 1 silence @ noise @ frame 2 full_scale_first)
       = [(True, buffer_of 1 silence), (False, replicate 200 0),
          (True, buffer_of 2 full_scale_first)]
   \<and> complete_windows wire (frame 1 silence @ noise @ frame 2 full_scale_first)
       = [buffer_of 1 silence, buffer_of 2 full_scale_first]
   \<and> fst (FreeEEG32_read_thread wire registry clock 17
            (frame 1 silence @ noise @ frame 2 full_scale_first))
       = [First_Package_Dropped, No_Frame 198,
          Pushed (decode_package (eeg_scale wire) (clock 0) (buffer_of 2 full_scale_first)
                    (replicate 34 None))]
   \<and> pushed (fst (FreeEEG32_read_thread wire registry clock 17
                    (frame 1 silence @ noise @ frame 2 full_scale_first))) ! 0 ! 0
       = Some 2
   \<and> pushed (fst (FreeEEG32_read_thread wire registry clock 17
                    (frame 1 silence @ noise @ frame 2 full_scale_first))) ! 0 ! 1
       = Some 187500
   \<and> pushed (fst (FreeEEG32_read_thread wire registry clock 17
                    (frame 1 silence @ noise @ frame 2 full_scale_first))) ! 0 ! 2
       = Some 0
   \<and> pushed (fst (FreeEEG32_read_thread wire registry clock 17
                    (frame 1 silence @ noise @ frame 2 full_scale_first))) ! 0 ! 33
       = Some 1000"
proof -
  let ?rs = "frame 1 silence @ noise @ frame 2 full_scale_first"
  let ?log = "fst (FreeEEG32_read_thread wire registry clock 17 ?rs)"
  have r: "34 \<le> rows_of registry 17" "nat (rows_of registry 17) = 34"
    by (simp_all add: rows_of_def registry_def ChannelLayout_length_def)
  have w: "windows wire (replicate (nat max_size) 0) ?rs
      = [(True, buffer_of 1 silence), (False, replicate 200 0),
         (True, buffer_of 2 full_scale_first)]"
    by (simp add: max_size_def windows.simps scan_first scan_noise scan_second)
  then have c: "complete_windows wire ?rs = [buffer_of 1 silence, buffer_of 2 full_scale_first]"
    by (simp add: complete_windows_def)
  have b: "buffer_of 2 full_scale_first ! 0 = 2"
    "buffer_of 2 full_scale_first ! Suc 0 = 0x7F" "buffer_of 2 full_scale_first ! 2 = 0xFF"
    "buffer_of 2 full_scale_first ! 3 = 0xFF" "buffer_of 2 full_scale_first ! 4 = 0"
    "buffer_of 2 full_scale_first ! 5 = 0" "buffer_of 2 full_scale_first ! 6 = 0"
    by (simp_all add: buffer_of_def full_scale_first_def nth_append)
  have z: "channel_value (eeg_scale wire) 0 0 0 = 0"
    by (simp add: channel_value_def cast_24bit_to_int32_def binary32_def round_to_format_def)
  have m: "channel_value (eeg_scale wire) 0x7F 0xFF 0xFF = 187500"
    unfolding wire_scale by (rule max_positive_value)
  from first_frame_dropped_once [of wire registry clock 17 ?rs] r(1)
  have "\<forall>n. Suc n < length (complete_windows wire ?rs)
      \<longrightarrow> pushed ?log ! n ! 0 = Some (real (unat (complete_windows wire ?rs ! Suc n ! 0)))
        \<and> (\<forall>i < 32. pushed ?log ! n ! (i + 1)
              = Some (channel_value (eeg_scale wire)
                        (complete_windows wire ?rs ! Suc n ! (1 + 3 * i))
                        (complete_windows wire ?rs ! Suc n ! (2 + 3 * i))
                        (complete_windows wire ?rs ! Suc n ! (3 + 3 * i))))
        \<and> pushed ?log ! n ! 33 = Some (clock n)"
    by blast
  then have s: "pushed ?log ! 0 ! 0 = Some (real (unat (buffer_of 2 full_scale_first ! 0)))"
    "\<forall>i < 32. pushed ?log ! 0 ! (i + 1)
        = Some (channel_value (eeg_scale wire)
                  (buffer_of 2 full_scale_first ! (1 + 3 * i))
                  (buffer_of 2 full_scale_first ! (2 + 3 * i))
                  (buffer_of 2 full_scale_first ! (3 + 3 * i)))"
    "pushed ?log ! 0 ! 33 = Some (clock 0)"
    unfolding c by simp_all
  from s(2) have "pushed ?log ! 0 ! (0 + 1)
      = Some (channel_value (eeg_scale wire)
                (buffer_of 2 full_scale_first ! (1 + 3 * 0))
                (buffer_of 2 full_scale_first ! (2 + 3 * 0))
                (buffer_of 2 full_scale_first ! (3 + 3 * 0)))"
    by (rule allE [of _ 0]) simp
  then have one: "pushed ?log ! 0 ! 1 = Some 187500" by (simp add: b m)
  from s(2) have "pushed ?log ! 0 ! (1 + 1)
      = Some (channel_value (eeg_scale wire)
                (buffer_of 2 full_scale_first ! (1 + 3 * 1))
                (buffer_of 2 full_scale_first ! (2 + 3 * 1))
                (buffer_of 2 full_scale_first ! (3 + 3 * 1)))"
    by (rule allE [of _ 1]) simp
  then have two: "pushed ?log ! 0 ! 2 = Some 0" by (simp add: b z numeral_2_eq_2)
  from s(1) have zero: "pushed ?log ! 0 ! 0 = Some 2" by (simp add: b)
  from s(3) have last: "pushed ?log ! 0 ! 33 = Some 1000" by (simp add: clock_def)
  have run: "?log = [First_Package_Dropped, No_Frame 198,
      Pushed (decode_package (eeg_scale wire) (clock 0) (buffer_of 2 full_scale_first)
                (replicate 34 None))]"
    by (simp add: resync_run)
  from r(1) w c run zero one two last show ?thesis by simp
qed

text \<open>
  Claim C8: in every pass of the relay worker's loop, a receive that returns fewer than
  \<open>8 \<times> channel count\<close> bytes pushes no sample and the loop goes on to the next receive; a
  sample is pushed exactly when the receive returns \<open>8 \<times> channel count\<close>.  The worker
  makes every receive it gets to make before \<open>keep_alive\<close> is cleared, and it returns
  normally.
\<close>

theorem relay_short_packet_dropped:
  assumes "0 \<le> rows_of get_num_rows board" and "rows_of get_num_rows board < 2 ^ 28"
  shows "\<exists>its. StreamingBoard_read_thread get_num_rows board rs = (its, Thread_Returns)
           \<and> length its = length rs
           \<and> (\<forall>i < length rs.
                 (its ! i = None) = (recv_res (rs ! i) \<noteq> 8 * rows_of get_num_rows board))
           \<and> (\<forall>i < length rs.
                 recv_res (rs ! i) < 8 * rows_of get_num_rows board \<longrightarrow> its ! i = None)"
proof -
  have "bytes_per_recv (rows_of get_num_rows board) = 8 * rows_of get_num_rows board"
    using assms by (rule bytes_per_recv_small)
  moreover have "StreamingBoard_read_thread get_num_rows board rs
      = (relay_loop (bytes_per_recv (rows_of get_num_rows board))
           (replicate (nat (rows_of get_num_rows board)) None) rs, Thread_Returns)"
    using assms(1) by (simp add: StreamingBoard_read_thread_def rows_of_def Let_def)
  ultimately show ?thesis
    by (simp add: relay_loop_length relay_loop_nth)
qed

theorem relay_short_packet_dropped_witness:
  "rows_of registry 1 = 3 \<and> (0::int) \<le> 3 \<and> (3::int) < 2 ^ 28
   \<and> map recv_res packets = [8, 24, - 1, 24]
   \<and> StreamingBoard_read_thread registry 1 packets
       = ([None, Some [Some 1, Some 2, Some 3], None, Some [Some 4, Some 5, Some 6]],
          Thread_Returns)"
  using relay_short_packet_dropped [of registry 1 packets]
  by (simp add: relay_run) (simp add: registry_def packets_def rows_of_def)

text \<open>
  Claim C5, as it is stated, does not hold.  It says that with \<open>Vref = 4.5\<close> and
  \<open>Gain = 24\<close> the largest positive raw value \<open>0x7FFFFF\<close> decodes, within floating-point
  tolerance, to \<open>4.5 / (2\<^sup>2\<^sup>3 - 1) / 24 \<times> 10\<^sup>6\<close> microvolts.  That number is the scale, about
  0.0224; the decoded value is the scale times the raw value, 187500.
\<close>

theorem full_scale_does_not_decode_to_the_scale:
  "ads_vref wire = 4.5 \<and> ads_gain wire = 24
   \<and> raw_channel (buffer_of 2 full_scale_first) 0 = 0x7FFFFF
   \<and> decode_package (eeg_scale wire) (clock 0) (buffer_of 2 full_scale_first)
        (replicate 34 None) ! 1 = Some 187500
   \<and> exact_scale 4.5 24 < 1
   \<and> 187499 < \<bar>187500 - exact_scale 4.5 24\<bar>"
proof -
  have "raw_channel (buffer_of 2 full_scale_first) 0 = 0x7FFFFF"
    by (simp add: raw_channel_def buffer_of_def full_scale_first_def max_positive)
  moreover have "decode_package (eeg_scale wire) (clock 0) (buffer_of 2 full_scale_first)
      (replicate 34 None) ! 1 = Some 187500"
    unfolding wire_scale
    by (simp add: decode_package_nth buffer_of_def full_scale_first_def max_positive_value)
  ultimately show ?thesis
    by (simp add: wire_def exact_scale_def)
qed

text \<open>
  Claim C5, amended: with \<open>Vref = 4.5\<close> and \<open>Gain = 24\<close>, field \<open>i + 1\<close> of a decoded frame
  (for each of the 32 channels \<open>i\<close>) is the channel's 3-byte big-endian two's-complement
  integer times the scale, computed in \<^verbatim>\<open>float\<close>; it differs from the exact product of the
  integer and \<open>Vref / (2\<^sup>2\<^sup>3 - 1) / Gain \<times> 10\<^sup>6\<close> by at most that product's magnitude divided
  by \<open>2\<^sup>2\<^sup>2\<close>.  The largest positive raw value \<open>0x7FFFFF\<close> decodes to 187500 microvolts,
  which is \<open>2\<^sup>2\<^sup>3 - 1\<close> times the scale.
\<close>

theorem channel_fields_are_scaled:
  assumes "ads_vref k = 4.5" and "ads_gain k = 24" and "34 \<le> length package" and "i < 32"
  shows "\<exists>v. decode_package (eeg_scale k) t b package ! (i + 1) = Some v
           \<and> \<bar>v - of_int (raw_channel b i) * exact_scale 4.5 24\<bar>
               \<le> \<bar>of_int (raw_channel b i) * exact_scale 4.5 24\<bar> / 2 ^ 22
           \<and> (raw_channel b i = 0x7FFFFF \<longrightarrow> v = 187500)
           \<and> of_int 0x7FFFFF * exact_scale 4.5 24 = 187500"
proof -
  define v where
    "v = channel_value (eeg_scale k) (b ! (1 + 3 * i)) (b ! (2 + 3 * i)) (b ! (3 + 3 * i))"
  have s: "eeg_scale k = 12000001 / 536870912"
    using assms(1,2) by (rule eeg_scale_value)
  have v: "v = binary32 (12000001 / 536870912 * binary32 (of_int (raw_channel b i)))"
    by (simp add: v_def s channel_value_def raw_channel_def)
  have field: "decode_package (eeg_scale k) t b package ! (i + 1) = Some v"
    using assms(3,4) by (simp add: decode_package_nth v_def)
  have bound: "\<bar>v - of_int (raw_channel b i) * exact_scale 4.5 24\<bar>
      \<le> \<bar>of_int (raw_channel b i) * exact_scale 4.5 24\<bar> / 2 ^ 22"
    unfolding v exact_scale_def by (rule channel_value_error)
  have top: "v = 187500" if "raw_channel b i = 0x7FFFFF"
    unfolding v that by (simp add: rounding)
  have exact: "of_int 0x7FFFFF * exact_scale 4.5 24 = (187500 :: real)"
    by (simp add: exact_scale_def)
  from field bound top exact show ?thesis by blast
qed

theorem channel_fields_are_scaled_witness:
  "ads_vref wire = 4.5 \<and> ads_gain wire = 24 \<and> 34 \<le> length (replicate 34 (None :: real option))
   \<and> (0::nat) < 32
   \<and> raw_channel (buffer_of 2 full_scale_first) 0 = 0x7FFFFF
   \<and> decode_package (eeg_scale wire) (clock 0) (buffer_of 2 full_scale_first)
        (replicate 34 None) ! (0 + 1) = Some 187500
   \<and> \<bar>187500 - of_int 0x7FFFFF * exact_scale 4.5 24\<bar>
       \<le> \<bar>of_int 0x7FFFFF * exact_scale 4.5 24\<bar> / 2 ^ 22"
proof -
  have r: "raw_channel (buffer_of 2 full_scale_first) 0 = 0x7FFFFF"
    by (simp add: raw_channel_def buffer_of_def full_scale_first_def max_positive)
  have k: "ads_vref wire = 4.5" "ads_gain wire = 24"
    by (simp_all add: wire_def)
  have l: "34 \<le> length (replicate 34 (None :: real option))" "(0::nat) < 32"
    by simp_all
  from channel_fields_are_scaled [OF k l, of "clock 0" "buffer_of 2 full_scale_first"]
  obtain v where
    "decode_package (eeg_scale wire) (clock 0) (buffer_of 2 full_scale_first)
       (replicate 34 None) ! (0 + 1) = Some v"
    and "\<bar>v - of_int (raw_channel (buffer_of 2 full_scale_first) 0) * exact_scale 4.5 24\<bar>
       \<le> \<bar>of_int (raw_channel (buffer_of 2 full_scale_first) 0) * exact_scale 4.5 24\<bar> / 2 ^ 22"
    and "raw_channel (buffer_of 2 full_scale_first) 0 = 0x7FFFFF \<longrightarrow> v = 187500"
    by blast
  with r k l show ?thesis by simp
qed

end
